theory Spec2Isabelle
  imports Main "HOL-Library.Char_ord" "HOL-Library.List_Lexorder" "HOL-Library.Sublist"
begin

section \<open>Python built-ins used by the program\<close>

text \<open>
  Strings are lists of characters. The model covers ASCII text: a Python \<open>str\<close> is
  compared by code point, which on ASCII is the order of \<^typ>\<open>char\<close> lifted
  lexicographically to lists (a proper prefix is smaller).
\<close>

definition is_digit :: "char \<Rightarrow> bool" where
  "is_digit c = (48 \<le> (of_char c :: nat) \<and> (of_char c :: nat) \<le> 57)"

definition digit_val :: "char \<Rightarrow> nat" where
  "digit_val c = of_char c - 48"

definition digit_char :: "nat \<Rightarrow> char" where
  "digit_char n = char_of (48 + n)"

text \<open>The characters \<open>int()\<close> skips around a number: space, and \<open>\t \n \v \f \r\<close>.\<close>

definition is_space :: "char \<Rightarrow> bool" where
  "is_space c = ((of_char c :: nat) = 32 \<or> (9 \<le> (of_char c :: nat) \<and> (of_char c :: nat) \<le> 13))"

definition strip :: "string \<Rightarrow> string" where
  "strip s = rev (dropWhile is_space (rev (dropWhile is_space s)))"

text \<open>
  The digits of a decimal literal after its first digit; a single underscore may stand
  between two digits.
\<close>

fun parse_digits :: "nat \<Rightarrow> string \<Rightarrow> nat option" where
  "parse_digits acc [] = Some acc"
| "parse_digits acc [c] =
     (if is_digit c then Some (acc * 10 + digit_val c) else None)"
| "parse_digits acc (c # d # cs) =
     (if is_digit c then parse_digits (acc * 10 + digit_val c) (d # cs)
      else if c = CHR ''_'' \<and> is_digit d then parse_digits (acc * 10 + digit_val d) cs
      else None)"

text \<open>
  The interpreter refuses a decimal literal of more than 4300 digits (the default of
  \<open>sys.set_int_max_str_digits\<close>), leading zeros counted, underscores not.
\<close>

definition int_max_str_digits :: nat where
  "int_max_str_digits = 4300"

definition parse_unsigned :: "string \<Rightarrow> nat option" where
  "parse_unsigned s =
     (if length (filter is_digit s) > int_max_str_digits then None
      else case s of [] \<Rightarrow> None
        | c # cs \<Rightarrow> if is_digit c then parse_digits (digit_val c) cs else None)"

text \<open>
  \<open>int(s)\<close> on a string: \<open>None\<close> is the \<open>ValueError\<close>. Surrounding white space is
  dropped, one sign is allowed, and at least one digit must follow it directly.
\<close>

definition py_int :: "string \<Rightarrow> int option" where
  "py_int s =
     (case strip s of [] \<Rightarrow> None
      | c # cs \<Rightarrow>
          if c = CHR ''-'' then map_option (\<lambda>n. - int n) (parse_unsigned cs)
          else if c = CHR ''+'' then map_option int (parse_unsigned cs)
          else map_option int (parse_unsigned (c # cs)))"

text \<open>\<open>s.split(d)\<close> for a one-character separator: always at least one field.\<close>

fun split_on :: "char \<Rightarrow> string \<Rightarrow> string list" where
  "split_on d [] = [[]]"
| "split_on d (c # cs) =
     (if c = d then [] # split_on d cs
      else (case split_on d cs of [] \<Rightarrow> [[c]] | p # ps \<Rightarrow> (c # p) # ps))"

text \<open>\<open>str(n)\<close> for a natural number and for an integer.\<close>

fun str_nat :: "nat \<Rightarrow> string" where
  "str_nat n = (if n < 10 then [digit_char n] else str_nat (n div 10) @ [digit_char (n mod 10)])"

declare str_nat.simps [simp del]

definition str_int :: "int \<Rightarrow> string" where
  "str_int i = (if i < 0 then CHR ''-'' # str_nat (nat (- i)) else str_nat (nat i))"

text \<open>The format \<open>{i:02d}\<close>: zeros are put after the sign up to a width of two.\<close>

definition fmt_02d :: "int \<Rightarrow> string" where
  "fmt_02d i = (if 0 \<le> i \<and> i < 10 then CHR ''0'' # str_int i else str_int i)"

section \<open>Time utilities (algorithm.py)\<close>

definition time_to_minutes :: "string \<Rightarrow> int" where
  "time_to_minutes time_str =
     (if CHR '':'' \<notin> set time_str then 0
      else let parts = split_on CHR '':'' time_str in
        if length parts \<noteq> 2 then 0
        else (case py_int (parts ! 0) of None \<Rightarrow> 0
          | Some hours \<Rightarrow>
              (case py_int (parts ! 1) of None \<Rightarrow> 0
               | Some minutes \<Rightarrow>
                   if 0 \<le> hours \<and> hours \<le> 23 \<and> 0 \<le> minutes \<and> minutes \<le> 59
                   then hours * 60 + minutes else 0)))"

definition is_time_between :: "string \<Rightarrow> string \<Rightarrow> string \<Rightarrow> bool" where
  "is_time_between current start end =
     (let current_min = time_to_minutes current;
          start_min = time_to_minutes start;
          end_min = time_to_minutes end
      in if end_min < start_min then current_min \<ge> start_min \<or> current_min \<le> end_min
         else start_min \<le> current_min \<and> current_min \<le> end_min)"

section \<open>Data model (models.py)\<close>

datatype StatusType = STUDYING | FREE | HELP | BUSY | TIRED | SOCIAL

fun status_value :: "StatusType \<Rightarrow> string" where
  "status_value STUDYING = ''studying''"
| "status_value FREE = ''free''"
| "status_value HELP = ''help''"
| "status_value BUSY = ''busy''"
| "status_value TIRED = ''tired''"
| "status_value SOCIAL = ''social''"

datatype DayType = MONDAY | TUESDAY | WEDNESDAY | THURSDAY | FRIDAY | SATURDAY | SUNDAY

fun day_value :: "DayType \<Rightarrow> string" where
  "day_value MONDAY = ''monday''"
| "day_value TUESDAY = ''tuesday''"
| "day_value WEDNESDAY = ''wednesday''"
| "day_value THURSDAY = ''thursday''"
| "day_value FRIDAY = ''friday''"
| "day_value SATURDAY = ''saturday''"
| "day_value SUNDAY = ''sunday''"

text \<open>
  The dataclasses share field names (\<open>id\<close>, \<open>username\<close>, \<open>major\<close>, \<open>avatar\<close>), so the
  fields of each record carry a prefix naming the class.
\<close>

record User =
  u_id :: string
  u_username :: string
  u_major :: string
  u_avatar :: "string option"

record Schedule =
  s_id :: string
  s_user_id :: string
  course_code :: string
  course_name :: string
  day :: DayType
  start_time :: string
  end_time :: string
  location :: "string option"

record UserStatus =
  us_id :: string
  us_user_id :: string
  manual_status :: StatusType
  last_updated :: string

record StudyPartner =
  p_id :: string
  p_username :: string
  p_major :: string
  p_avatar :: "string option"
  score :: int
  shared_classes :: "string list"
  current_class :: "string option"
  next_class :: "string option"
  reason :: string

record StatusBoardUser =
  b_id :: string
  b_username :: string
  b_major :: string
  b_avatar :: "string option"
  b_manual_status :: string
  b_current_class :: "string option"
  b_next_class :: "string option"

record CurrentStatusResponse =
  now_iso :: string
  in_class :: "StatusBoardUser list"
  free :: "StatusBoardUser list"

section \<open>The reference instant\<close>

text \<open>
  A \<open>datetime\<close>, reduced to what the program reads from it: the day of the week
  (\<open>strftime('%A')\<close>, English names), the hour and minute (\<open>strftime('%H:%M')\<close>, both
  zero-padded to two digits) and the text of \<open>isoformat()\<close>. Where the source calls
  \<open>datetime.now()\<close> the model takes the instant as an argument.
\<close>

record datetime =
  dt_weekday :: DayType
  dt_hour :: nat
  dt_minute :: nat
  dt_iso :: string

definition hhmm :: "nat \<Rightarrow> nat \<Rightarrow> string" where
  "hhmm h m = [digit_char (h div 10), digit_char (h mod 10), CHR '':'',
               digit_char (m div 10), digit_char (m mod 10)]"

definition strftime_HM :: "datetime \<Rightarrow> string" where
  "strftime_HM now = hhmm (dt_hour now) (dt_minute now)"

definition strftime_A_lower :: "datetime \<Rightarrow> string" where
  "strftime_A_lower now = day_value (dt_weekday now)"

section \<open>Recommendation engine over JSON documents (algorithm.py)\<close>

text \<open>
  The engine holds dictionaries loaded from JSON. A document is a record of optional
  string fields: a missing key is \<open>None\<close>, and \<open>d.get(k, default)\<close> is \<open>get_or\<close>.
\<close>

definition get_or :: "'a option \<Rightarrow> 'a \<Rightarrow> 'a" where
  "get_or v d = (case v of None \<Rightarrow> d | Some x \<Rightarrow> x)"

record class_info =
  ci_courseCode :: "string option"
  ci_courseName :: "string option"
  ci_day :: "string option"
  ci_startTime :: "string option"
  ci_endTime :: "string option"
  ci_location :: "string option"

record schedule_doc =
  sd_userId :: "string option"
  sd_schedule :: "class_info list option"

record status_doc =
  manualStatus :: "string option"
  lastUpdated :: "string option"

record RecommendationEngine =
  e_schedules :: "string \<rightharpoonup> schedule_doc"
  e_statuses :: "string \<rightharpoonup> status_doc"



text \<open>The schedule list of a user: \<open>engine.schedules.get(user_id, {}).get('schedule', [])\<close>.\<close>

definition user_schedule :: "RecommendationEngine \<Rightarrow> string \<Rightarrow> class_info list" where
  "user_schedule self user_id =
     (case e_schedules self user_id of None \<Rightarrow> [] | Some doc \<Rightarrow> get_or (sd_schedule doc) [])"

fun current_class_scan :: "string \<Rightarrow> string \<Rightarrow> class_info list \<Rightarrow> string" where
  "current_class_scan current_day current_time [] = ''Free''"
| "current_class_scan current_day current_time (ci # rest) =
     (if ci_day ci = Some current_day then
        (let start_time = get_or (ci_startTime ci) [];
             end_time = get_or (ci_endTime ci) []
         in if start_time \<noteq> [] \<and> end_time \<noteq> [] then
              (if is_time_between current_time start_time end_time
               then ''In '' @ get_or (ci_courseCode ci) ''Unknown''
               else current_class_scan current_day current_time rest)
            else current_class_scan current_day current_time rest)
      else current_class_scan current_day current_time rest)"

definition get_current_class_for_user ::
    "RecommendationEngine \<Rightarrow> string \<Rightarrow> datetime \<Rightarrow> string" where
  "get_current_class_for_user engine user_id now =
     (if e_schedules engine user_id = None then ''Free''
      else current_class_scan (strftime_A_lower now) (strftime_HM now)
             (user_schedule engine user_id))"

record recent_class =
  rc_courseCode :: string
  rc_courseName :: string
  endedMinutesAgo :: int

text \<open>The loop of \<open>get_recent_class_for_user\<close>, with its two variables as arguments.\<close>

fun recent_scan ::
    "string \<Rightarrow> int \<Rightarrow> class_info list \<Rightarrow> recent_class option \<Rightarrow> int \<Rightarrow> recent_class option" where
  "recent_scan current_day current_minutes [] recent min_gap = recent"
| "recent_scan current_day current_minutes (ci # rest) recent min_gap =
     (if ci_day ci = Some current_day then
        (let end_time = get_or (ci_endTime ci) []
         in if end_time \<noteq> [] then
              (let end_minutes = time_to_minutes end_time;
                   gap = current_minutes - end_minutes
               in if 0 < gap \<and> gap < min_gap
                  then recent_scan current_day current_minutes rest
                         (Some \<lparr>rc_courseCode = get_or (ci_courseCode ci) ''Unknown'',
                                 rc_courseName = get_or (ci_courseName ci) [],
                                 endedMinutesAgo = gap\<rparr>) gap
                  else recent_scan current_day current_minutes rest recent min_gap)
            else recent_scan current_day current_minutes rest recent min_gap)
      else recent_scan current_day current_minutes rest recent min_gap)"

definition get_recent_class_for_user ::
    "RecommendationEngine \<Rightarrow> string \<Rightarrow> datetime \<Rightarrow> recent_class option" where
  "get_recent_class_for_user engine user_id now =
     (if e_schedules engine user_id = None then None
      else recent_scan (strftime_A_lower now) (time_to_minutes (strftime_HM now))
             (user_schedule engine user_id) None 60)"

section \<open>Stores and services (services.py)\<close>

text \<open>
  Every exception the services raise is a \<open>ValueError\<close>; the model keeps its message
  (for \<open>int()\<close>, the message without the quoted literal).
\<close>

datatype error = ValueError string

text \<open>
  \<open>ScheduleService\<close>: \<open>users\<close> is a dictionary iterated in insertion order, so it is a
  list of key and value pairs, looked up with \<^const>\<open>map_of\<close>; the other two
  dictionaries are only looked up. \<open>user_schedules\<close> is a \<open>defaultdict(list)\<close>: reading
  a missing key gives the empty list.
\<close>

record ScheduleService =
  users :: "(string \<times> User) list"
  schedules :: "string \<rightharpoonup> Schedule"
  user_schedules :: "string \<rightharpoonup> string list"

definition get_user :: "ScheduleService \<Rightarrow> string \<Rightarrow> User option" where
  "get_user self user_id = map_of (users self) user_id"

definition add_schedule :: "ScheduleService \<Rightarrow> Schedule \<Rightarrow> ScheduleService" where
  "add_schedule self schedule =
     self\<lparr>schedules := (schedules self)(s_id schedule \<mapsto> schedule),
          user_schedules := (user_schedules self)(s_user_id schedule \<mapsto>
             get_or (user_schedules self (s_user_id schedule)) [] @ [s_id schedule])\<rparr>"

text \<open>
  \<open>remove_schedule\<close> returns the outcome together with the store after the call; both
  \<open>raise\<close> statements come before any assignment.
\<close>

definition remove_schedule ::
    "ScheduleService \<Rightarrow> string \<Rightarrow> string \<Rightarrow> (error + unit) \<times> ScheduleService" where
  "remove_schedule self schedule_id user_id =
     (case schedules self schedule_id of
        Some schedule \<Rightarrow>
          if s_user_id schedule = user_id then
            (Inr (),
             self\<lparr>schedules := (schedules self)(schedule_id := None),
                  user_schedules := (user_schedules self)(user_id \<mapsto>
                     filter (\<lambda>sid. sid \<noteq> schedule_id)
                       (get_or (user_schedules self user_id) []))\<rparr>)
          else (Inl (ValueError ''Not authorized to remove this schedule''), self)
      | None \<Rightarrow> (Inl (ValueError ''Schedule not found''), self))"

definition get_user_schedules :: "ScheduleService \<Rightarrow> string \<Rightarrow> Schedule list" where
  "get_user_schedules self user_id =
     (let schedule_ids = get_or (user_schedules self user_id) []
      in List.map_filter (\<lambda>sid. schedules self sid) schedule_ids)"

record StatusService =
  user_statuses :: "string \<rightharpoonup> UserStatus"

definition get_user_status :: "StatusService \<Rightarrow> string \<Rightarrow> StatusType" where
  "get_user_status self user_id =
     (case user_statuses self user_id of None \<Rightarrow> FREE | Some st \<Rightarrow> manual_status st)"

text \<open>
  \<open>_format_time\<close>: \<open>hour, minute = map(int, time_str.split(':'))\<close> converts the fields
  one by one while unpacking, and asks for a third field to see that there is none.
\<close>

definition invalid_literal :: error where
  "invalid_literal = ValueError ''invalid literal for int() with base 10''"

definition format_time :: "string \<Rightarrow> error + string" where
  "format_time time_str =
     (case split_on CHR '':'' time_str of
        [] \<Rightarrow> Inl (ValueError ''not enough values to unpack (expected 2, got 0)'')
      | hs # rest \<Rightarrow>
          (case py_int hs of None \<Rightarrow> Inl invalid_literal
           | Some hour \<Rightarrow>
               (case rest of
                  [] \<Rightarrow> Inl (ValueError ''not enough values to unpack (expected 2, got 1)'')
                | ms # rest' \<Rightarrow>
                    (case py_int ms of None \<Rightarrow> Inl invalid_literal
                     | Some minute \<Rightarrow>
                         (case rest' of
                            [] \<Rightarrow>
                              (let ampm = (if hour < 12 then ''AM'' else ''PM'');
                                   display_hour = (if hour \<le> 12 then hour else hour - 12);
                                   display_hour = (if display_hour = 0 then 12 else display_hour)
                               in Inr (str_int display_hour @ '':'' @ fmt_02d minute @ '' '' @ ampm))
                          | x # xs \<Rightarrow>
                              (case py_int x of None \<Rightarrow> Inl invalid_literal
                               | Some v \<Rightarrow>
                                   Inl (ValueError ''too many values to unpack (expected 2)'')))))))"

text \<open>The loop that looks for the class going on now; it stops at the first match.\<close>

fun find_current_class :: "DayType \<Rightarrow> string \<Rightarrow> Schedule list \<Rightarrow> string option" where
  "find_current_class current_day current_time [] = None"
| "find_current_class current_day current_time (schedule # rest) =
     (if day schedule = current_day then
        (if start_time schedule \<le> current_time \<and> current_time \<le> end_time schedule
         then Some (course_code schedule)
         else find_current_class current_day current_time rest)
      else find_current_class current_day current_time rest)"

text \<open>The truth value Python gives an optional string: \<open>None\<close> and \<open>""\<close> are false.\<close>

definition truthy :: "string option \<Rightarrow> bool" where
  "truthy v = (case v of None \<Rightarrow> False | Some s \<Rightarrow> s \<noteq> [])"

text \<open>\<open>min(xs, key=lambda x: x.start_time)\<close> on a non-empty list: the first least one.\<close>

fun min_by_start :: "Schedule \<Rightarrow> Schedule list \<Rightarrow> Schedule" where
  "min_by_start best [] = best"
| "min_by_start best (s # rest) =
     min_by_start (if start_time s < start_time best then s else best) rest"

definition find_next_class :: "DayType \<Rightarrow> string \<Rightarrow> Schedule list \<Rightarrow> error + string option" where
  "find_next_class current_day current_time scheds =
     (let today_schedules = filter (\<lambda>s. day s = current_day) scheds;
          future_schedules = filter (\<lambda>s. start_time s > current_time) today_schedules
      in case future_schedules of
           [] \<Rightarrow> Inr None
         | f # fs \<Rightarrow>
             (let next_schedule = min_by_start f fs
              in case format_time (start_time next_schedule) of
                   Inl e \<Rightarrow> Inl e
                 | Inr t \<Rightarrow> Inr (Some (course_code next_schedule @ '' @ '' @ t))))"

text \<open>The body of the loop of \<open>get_current_status\<close> for one user.\<close>

definition board_entry ::
    "ScheduleService \<Rightarrow> StatusService \<Rightarrow> datetime \<Rightarrow> string \<Rightarrow> User \<Rightarrow> error + StatusBoardUser" where
  "board_entry schedule_service self now user_id user =
     (let user_status = get_user_status self user_id;
          scheds = get_user_schedules schedule_service user_id;
          cur = find_current_class (dt_weekday now) (strftime_HM now) scheds
      in case find_next_class (dt_weekday now) (strftime_HM now) scheds of
           Inl e \<Rightarrow> Inl e
         | Inr nxt \<Rightarrow>
             Inr \<lparr>b_id = u_id user, b_username = u_username user, b_major = u_major user,
                  b_avatar = u_avatar user, b_manual_status = status_value user_status,
                  b_current_class = cur, b_next_class = nxt\<rparr>)"

fun status_loop ::
    "ScheduleService \<Rightarrow> StatusService \<Rightarrow> datetime \<Rightarrow> (string \<times> User) list \<Rightarrow>
     StatusBoardUser list \<Rightarrow> StatusBoardUser list \<Rightarrow>
     error + (StatusBoardUser list \<times> StatusBoardUser list)" where
  "status_loop schedule_service self now [] in_cl fr = Inr (in_cl, fr)"
| "status_loop schedule_service self now ((user_id, user) # rest) in_cl fr =
     (case board_entry schedule_service self now user_id user of
        Inl e \<Rightarrow> Inl e
      | Inr status_user \<Rightarrow>
          if truthy (b_current_class status_user)
          then status_loop schedule_service self now rest (in_cl @ [status_user]) fr
          else status_loop schedule_service self now rest in_cl (fr @ [status_user]))"

definition get_current_status ::
    "ScheduleService \<Rightarrow> StatusService \<Rightarrow> datetime \<Rightarrow> error + CurrentStatusResponse" where
  "get_current_status schedule_service self now =
     (case status_loop schedule_service self now (users schedule_service) [] [] of
        Inl e \<Rightarrow> Inl e
      | Inr (in_cl, fr) \<Rightarrow> Inr \<lparr>now_iso = dt_iso now, in_class = in_cl, free = fr\<rparr>)"

text \<open>
  The body of the loop of \<open>get_recommendations\<close> for one other user: \<open>Inr None\<close> is the
  \<open>continue\<close> on an empty intersection. The sets of course codes are lists without
  repetition. A Python set has no order of its own; \<open>intersection_list\<close>, the list made
  from the intersection, keeps the order of the requester's course codes.
\<close>

definition course_codes :: "Schedule list \<Rightarrow> string list" where
  "course_codes scheds = remdups (map course_code scheds)"

definition intersection_list :: "string list \<Rightarrow> string list \<Rightarrow> string list" where
  "intersection_list user_courses other_courses =
     filter (\<lambda>c. c \<in> set other_courses) user_courses"

definition candidate ::
    "ScheduleService \<Rightarrow> StatusService \<Rightarrow> datetime \<Rightarrow> User \<Rightarrow> string list \<Rightarrow>
     string \<Rightarrow> User \<Rightarrow> error + StudyPartner option" where
  "candidate schedule_service status_service now user user_courses other_user_id other_user =
     (let other_schedules = get_user_schedules schedule_service other_user_id;
          other_courses = course_codes other_schedules;
          shared = intersection_list user_courses other_courses
      in if shared = [] then Inr None
         else
          (let score0 = int (length shared) * 20;
               score1 = (if u_major user = u_major other_user then score0 + 15 else score0);
               other_status = get_user_status status_service other_user_id;
               score2 = (if other_status \<in> set [STUDYING, HELP, FREE] then score1 + 10 else score1);
               reason0 = ''Shares '' @ str_nat (length shared) @ '' class''
                           @ (if length shared > 1 then ''es'' else []) @ '' with you'';
               reason1 = (if u_major user = u_major other_user
                          then reason0 @ ''; Same major ('' @ u_major user @ '')'' else reason0);
               reason2 = (if other_status = HELP then reason1 @ ''; Available to help''
                          else if other_status = STUDYING then reason1 @ ''; Currently studying''
                          else reason1);
               cur = find_current_class (dt_weekday now) (strftime_HM now) other_schedules
           in case (if \<not> truthy cur
                    then find_next_class (dt_weekday now) (strftime_HM now) other_schedules
                    else Inr None) of
                Inl e \<Rightarrow> Inl e
              | Inr nxt \<Rightarrow>
                  Inr (Some \<lparr>p_id = u_id other_user, p_username = u_username other_user,
                             p_major = u_major other_user, p_avatar = u_avatar other_user,
                             score = score2, shared_classes = shared, current_class = cur,
                             next_class = nxt, reason = reason2\<rparr>)))"

fun recommendation_loop ::
    "ScheduleService \<Rightarrow> StatusService \<Rightarrow> datetime \<Rightarrow> string \<Rightarrow> User \<Rightarrow> string list \<Rightarrow>
     (string \<times> User) list \<Rightarrow> StudyPartner list \<Rightarrow> error + StudyPartner list" where
  "recommendation_loop schedule_service status_service now user_id user user_courses [] recs =
     Inr recs"
| "recommendation_loop schedule_service status_service now user_id user user_courses
       ((other_user_id, other_user) # rest) recs =
     (if other_user_id = user_id
      then recommendation_loop schedule_service status_service now user_id user user_courses rest recs
      else (case candidate schedule_service status_service now user user_courses
                   other_user_id other_user of
              Inl e \<Rightarrow> Inl e
            | Inr None \<Rightarrow>
                recommendation_loop schedule_service status_service now user_id user user_courses
                  rest recs
            | Inr (Some partner) \<Rightarrow>
                recommendation_loop schedule_service status_service now user_id user user_courses
                  rest (recs @ [partner])))"

text \<open>
  \<open>recommendations.sort(key=lambda x: x.score, reverse=True)\<close> is a stable sort that
  keeps the order of equal scores: a stable sort on the negated score.
\<close>

definition get_recommendations ::
    "ScheduleService \<Rightarrow> StatusService \<Rightarrow> datetime \<Rightarrow> string \<Rightarrow> error + StudyPartner list" where
  "get_recommendations schedule_service status_service now user_id =
     (case get_user schedule_service user_id of
        None \<Rightarrow> Inr []
      | Some user \<Rightarrow>
          (let user_scheds = get_user_schedules schedule_service user_id;
               user_courses = course_codes user_scheds
           in case recommendation_loop schedule_service status_service now user_id user
                     user_courses (users schedule_service) [] of
                Inl e \<Rightarrow> Inl e
              | Inr recs \<Rightarrow> Inr (take 5 (sort_key (\<lambda>x. - score x) recs))))"

section \<open>Notions used to state the properties of the time utilities\<close>

text \<open>
  The two fields of a clock string with one colon, and what the specification calls a
  well-formed time: exactly one colon, both fields accepted by \<open>int()\<close>, the hour in
  0 to 23 and the minute in 0 to 59.
\<close>

definition hour_field :: "string \<Rightarrow> string" where
  "hour_field s = takeWhile (\<lambda>c. c \<noteq> CHR '':'') s"

definition minute_field :: "string \<Rightarrow> string" where
  "minute_field s = tl (dropWhile (\<lambda>c. c \<noteq> CHR '':'') s)"

definition int_or_zero :: "string \<Rightarrow> int" where
  "int_or_zero f = (case py_int f of None \<Rightarrow> 0 | Some i \<Rightarrow> i)"

definition valid_clock :: "string \<Rightarrow> bool" where
  "valid_clock s =
     (count_list s CHR '':'' = 1 \<and> py_int (hour_field s) \<noteq> None \<and> py_int (minute_field s) \<noteq> None
      \<and> 0 \<le> int_or_zero (hour_field s) \<and> int_or_zero (hour_field s) \<le> 23
      \<and> 0 \<le> int_or_zero (minute_field s) \<and> int_or_zero (minute_field s) \<le> 59)"

section \<open>Sample data (create_sample_data in algorithm.py)\<close>

definition mk_class :: "string \<Rightarrow> string \<Rightarrow> string \<Rightarrow> string \<Rightarrow> string \<Rightarrow> string \<Rightarrow> class_info" where
  "mk_class code name d st en loc =
     \<lparr>ci_courseCode = Some code, ci_courseName = Some name, ci_day = Some d,
      ci_startTime = Some st, ci_endTime = Some en, ci_location = Some loc\<rparr>"

definition sample_schedules :: "string \<rightharpoonup> schedule_doc" where
  "sample_schedules =
     [''alice'' \<mapsto> \<lparr>sd_userId = Some ''alice'', sd_schedule = Some
        [mk_class ''CS 15-122'' ''Principles of Imperative Computation'' ''friday'' ''09:00'' ''10:20'' ''GHC 4401'',
         mk_class ''CS 15-122'' ''Principles of Imperative Computation'' ''monday'' ''09:00'' ''10:20'' ''GHC 4401'',
         mk_class ''MATH 21-127'' ''Concepts of Mathematics'' ''tuesday'' ''11:30'' ''12:50'' ''DH 2210'',
         mk_class ''MATH 21-127'' ''Concepts of Mathematics'' ''thursday'' ''11:30'' ''12:50'' ''DH 2210'']\<rparr>,
      ''bob'' \<mapsto> \<lparr>sd_userId = Some ''bob'', sd_schedule = Some
        [mk_class ''CS 15-122'' ''Principles of Imperative Computation'' ''friday'' ''09:00'' ''10:20'' ''GHC 4401'',
         mk_class ''CS 15-122'' ''Principles of Imperative Computation'' ''monday'' ''09:00'' ''10:20'' ''GHC 4401'',
         mk_class ''CS 15-150'' ''Principles of Functional Programming'' ''tuesday'' ''13:30'' ''14:50'' ''GHC 4307'']\<rparr>,
      ''carol'' \<mapsto> \<lparr>sd_userId = Some ''carol'', sd_schedule = Some
        [mk_class ''MATH 21-127'' ''Concepts of Mathematics'' ''tuesday'' ''11:30'' ''12:50'' ''DH 2210'',
         mk_class ''MATH 21-127'' ''Concepts of Mathematics'' ''thursday'' ''11:30'' ''12:50'' ''DH 2210'',
         mk_class ''MATH 21-259'' ''Calculus in Three Dimensions'' ''monday'' ''14:30'' ''15:50'' ''DH 1211'']\<rparr>]"

definition sample_statuses :: "string \<rightharpoonup> status_doc" where
  "sample_statuses =
     [''alice'' \<mapsto> \<lparr>manualStatus = Some ''studying'', lastUpdated = Some ''2025-01-10T14:00:00''\<rparr>,
      ''bob'' \<mapsto> \<lparr>manualStatus = Some ''free'', lastUpdated = Some ''2025-01-10T14:30:00''\<rparr>,
      ''carol'' \<mapsto> \<lparr>manualStatus = Some ''social'', lastUpdated = Some ''2025-01-10T15:00:00''\<rparr>,
      ''david'' \<mapsto> \<lparr>manualStatus = Some ''tired'', lastUpdated = Some ''2025-01-10T15:30:00''\<rparr>,
      ''emma'' \<mapsto> \<lparr>manualStatus = Some ''help'', lastUpdated = Some ''2025-01-10T16:00:00''\<rparr>]"

definition sample_engine :: RecommendationEngine where
  "sample_engine = \<lparr>e_schedules = sample_schedules, e_statuses = sample_statuses\<rparr>"

text \<open>Friday 10 January 2025 at 10:30, ten minutes after the morning class ends.\<close>

definition friday_1030 :: datetime where
  "friday_1030 = \<lparr>dt_weekday = FRIDAY, dt_hour = 10, dt_minute = 30, dt_iso = ''2025-01-10T10:30:00''\<rparr>"

section \<open>Notions used to state the property of the recently ended class\<close>

text \<open>
  An entry counts for the reference day when its day is the reference day and it has a
  non-empty end time; its gap is the reference minute minus the minute of its end time.
\<close>

definition on_day_ended :: "datetime \<Rightarrow> class_info \<Rightarrow> bool" where
  "on_day_ended now ci =
     (ci_day ci = Some (strftime_A_lower now) \<and> get_or (ci_endTime ci) [] \<noteq> [])"

definition ended_gap :: "datetime \<Rightarrow> class_info \<Rightarrow> int" where
  "ended_gap now ci =
     time_to_minutes (strftime_HM now) - time_to_minutes (get_or (ci_endTime ci) [])"

definition recently_ended :: "datetime \<Rightarrow> class_info \<Rightarrow> bool" where
  "recently_ended now ci =
     (on_day_ended now ci \<and> 0 < ended_gap now ci \<and> ended_gap now ci < 60)"

definition recent_of :: "datetime \<Rightarrow> class_info \<Rightarrow> recent_class" where
  "recent_of now ci =
     \<lparr>rc_courseCode = get_or (ci_courseCode ci) ''Unknown'',
      rc_courseName = get_or (ci_courseName ci) [],
      endedMinutesAgo = ended_gap now ci\<rparr>"

section \<open>A small store used as a concrete input\<close>

definition alice :: User where
  "alice = \<lparr>u_id = ''alice'', u_username = ''Alice Chen'', u_major = ''CS'', u_avatar = None\<rparr>"

definition bob :: User where
  "bob = \<lparr>u_id = ''bob'', u_username = ''Bob Smith'', u_major = ''CS'', u_avatar = None\<rparr>"

definition carol :: User where
  "carol = \<lparr>u_id = ''carol'', u_username = ''Carol Johnson'', u_major = ''MATH'', u_avatar = None\<rparr>"

definition mk_schedule ::
    "string \<Rightarrow> string \<Rightarrow> string \<Rightarrow> DayType \<Rightarrow> string \<Rightarrow> string \<Rightarrow> Schedule" where
  "mk_schedule sid uid code d st en =
     \<lparr>s_id = sid, s_user_id = uid, course_code = code, course_name = code, day = d,
      start_time = st, end_time = en, location = None\<rparr>"

text \<open>
  Alice and Bob share two courses and a major; Carol shares one course with Alice and has
  another major. Nobody has set a status.
\<close>

definition demo_store :: ScheduleService where
  "demo_store =
     \<lparr>users = [(''alice'', alice), (''bob'', bob), (''carol'', carol)],
      schedules =
        [''a1'' \<mapsto> mk_schedule ''a1'' ''alice'' ''CS 15-122'' MONDAY ''09:00'' ''10:20'',
         ''a2'' \<mapsto> mk_schedule ''a2'' ''alice'' ''MATH 21-127'' TUESDAY ''11:30'' ''12:50'',
         ''b1'' \<mapsto> mk_schedule ''b1'' ''bob'' ''CS 15-122'' MONDAY ''09:00'' ''10:20'',
         ''b2'' \<mapsto> mk_schedule ''b2'' ''bob'' ''MATH 21-127'' THURSDAY ''11:30'' ''12:50'',
         ''c1'' \<mapsto> mk_schedule ''c1'' ''carol'' ''MATH 21-127'' TUESDAY ''11:30'' ''12:50''],
      user_schedules =
        [''alice'' \<mapsto> [''a1'', ''a2''], ''bob'' \<mapsto> [''b1'', ''b2''], ''carol'' \<mapsto> [''c1'']]\<rparr>"

definition no_statuses :: StatusService where
  "no_statuses = \<lparr>user_statuses = Map.empty\<rparr>"

definition monday_0930 :: datetime where
  "monday_0930 = \<lparr>dt_weekday = MONDAY, dt_hour = 9, dt_minute = 30, dt_iso = ''2025-01-13T09:30:00''\<rparr>"

section \<open>Notions used to state the properties of the recommendations\<close>

text \<open>
  The distinct course codes of a user, the courses two users share, and the invariant of
  the user store: \<open>create_or_get_user\<close> files every user under the user's own id.
\<close>

definition courses_of :: "ScheduleService \<Rightarrow> string \<Rightarrow> string set" where
  "courses_of ss uid = course_code ` set (get_user_schedules ss uid)"

definition shared_courses :: "ScheduleService \<Rightarrow> string \<Rightarrow> string \<Rightarrow> string set" where
  "shared_courses ss uid oid = courses_of ss uid \<inter> courses_of ss oid"

definition eligible :: "ScheduleService \<Rightarrow> string \<Rightarrow> string \<times> User \<Rightarrow> bool" where
  "eligible ss uid entry = (fst entry \<noteq> uid \<and> shared_courses ss uid (fst entry) \<noteq> {})"

definition keys_are_ids :: "ScheduleService \<Rightarrow> bool" where
  "keys_are_ids ss = list_all (\<lambda>entry. u_id (snd entry) = fst entry) (users ss)"

definition built_from ::
    "ScheduleService \<Rightarrow> StatusService \<Rightarrow> datetime \<Rightarrow> string \<Rightarrow> User \<Rightarrow>
     StudyPartner \<Rightarrow> string \<times> User \<Rightarrow> bool" where
  "built_from ss st now uid user p entry =
     (candidate ss st now user (course_codes (get_user_schedules ss uid)) (fst entry) (snd entry)
        = Inr (Some p))"


section \<open>Notions used to compare the two current-class computations\<close>

text \<open>
  A zero-padded clock string: two digits, a colon, two digits, the hour at most 23 and
  the minute at most 59.
\<close>

definition is_hhmm :: "string \<Rightarrow> bool" where
  "is_hhmm s =
     (length s = 5 \<and> is_digit (s ! 0) \<and> is_digit (s ! 1) \<and> s ! 2 = CHR '':''
      \<and> is_digit (s ! 3) \<and> is_digit (s ! 4)
      \<and> digit_val (s ! 0) * 10 + digit_val (s ! 1) \<le> 23
      \<and> digit_val (s ! 3) * 10 + digit_val (s ! 4) \<le> 59)"

text \<open>
  The JSON document that stands for a schedule record in the files the engine of
  algorithm.py reads: the same course, day and times under the engine's key names.
\<close>

definition class_info_of :: "Schedule \<Rightarrow> class_info" where
  "class_info_of s =
     \<lparr>ci_courseCode = Some (course_code s), ci_courseName = Some (course_name s),
      ci_day = Some (day_value (day s)), ci_startTime = Some (start_time s),
      ci_endTime = Some (end_time s), ci_location = location s\<rparr>"

definition wellformed_times :: "Schedule \<Rightarrow> bool" where
  "wellformed_times s =
     (is_hhmm (start_time s) \<and> is_hhmm (end_time s)
      \<and> time_to_minutes (start_time s) \<le> time_to_minutes (end_time s))"

section \<open>Notions used to state the properties of the status board\<close>

text \<open>
  A user is in class at the reference instant when some schedule entry of the user on the
  reference day contains the reference time, compared the way the status board compares
  times.
\<close>

definition entry_contains :: "datetime \<Rightarrow> Schedule \<Rightarrow> bool" where
  "entry_contains now s =
     (day s = dt_weekday now \<and> start_time s \<le> strftime_HM now \<and> strftime_HM now \<le> end_time s)"

definition in_class_now :: "ScheduleService \<Rightarrow> datetime \<Rightarrow> string \<Rightarrow> bool" where
  "in_class_now ss now uid = list_ex (entry_contains now) (get_user_schedules ss uid)"

text \<open>
  A store the program reaches through \<open>add_schedule\<close>: the schedule form takes the course
  code as typed, and here it was left empty.
\<close>

definition dana :: User where
  "dana = \<lparr>u_id = ''dana'', u_username = ''Dana Lee'', u_major = ''CS'', u_avatar = None\<rparr>"

definition blank_code_store :: ScheduleService where
  "blank_code_store =
     add_schedule \<lparr>users = [(''dana'', dana)], schedules = Map.empty, user_schedules = Map.empty\<rparr>
       (mk_schedule ''d1'' ''dana'' [] MONDAY ''09:00'' ''10:20'')"

text \<open>
  The start times of every user's entries are zero-padded clock strings; then the
  12-hour label of a next class can always be formed.
\<close>

definition start_times_ok :: "ScheduleService \<Rightarrow> bool" where
  "start_times_ok ss =
     list_all (\<lambda>entry. list_all (\<lambda>s. is_hhmm (start_time s)) (get_user_schedules ss (fst entry)))
       (users ss)"

section \<open>Properties of the built-ins\<close>

lemma split_on_nonempty: "split_on d s \<noteq> []"
  by (induction s) (auto split: list.splits)

lemma length_split_on: "length (split_on d s) = Suc (count_list s d)"
  by (induction s) (auto split: list.splits)

lemma split_on_no_sep: "d \<notin> set s \<Longrightarrow> split_on d s = [s]"
  by (induction s) auto

lemma count_list_0: "count_list s d = 0 \<longleftrightarrow> d \<notin> set s"
  by (induction s) auto

lemma split_one:
  "count_list s d = 1 \<Longrightarrow>
   split_on d s = [takeWhile (\<lambda>c. c \<noteq> d) s, tl (dropWhile (\<lambda>c. c \<noteq> d) s)]"
proof (induction s)
  case Nil
  then show ?case by simp
next
  case (Cons c cs)
  show ?case
  proof (cases "c = d")
    case True
    with Cons.prems have "d \<notin> set cs" by (simp add: count_list_0)
    with True show ?thesis by (simp add: split_on_no_sep)
  next
    case False
    with Cons.prems have "count_list cs d = 1" by simp
    with Cons.IH False show ?thesis by simp
  qed
qed

lemma time_to_minutes_valid:
  assumes "valid_clock s"
  shows "time_to_minutes s = int_or_zero (hour_field s) * 60 + int_or_zero (minute_field s)"
proof -
  from assms have c: "count_list s CHR '':'' = 1" by (simp add: valid_clock_def)
  then have mem: "CHR '':'' \<in> set s" using count_list_0[of s "CHR '':''"] by auto
  have sp: "split_on CHR '':'' s = [hour_field s, minute_field s]"
    using split_one[OF c] by (simp add: hour_field_def minute_field_def)
  from assms obtain h m where h: "py_int (hour_field s) = Some h" and m: "py_int (minute_field s) = Some m"
    by (auto simp: valid_clock_def)
  from assms h m have r: "0 \<le> h \<and> h \<le> 23 \<and> 0 \<le> m \<and> m \<le> 59"
    by (simp add: valid_clock_def int_or_zero_def)
  show ?thesis using mem sp h m r by (simp add: time_to_minutes_def int_or_zero_def)
qed

lemma time_to_minutes_invalid:
  assumes "\<not> valid_clock s"
  shows "time_to_minutes s = 0"
proof (cases "count_list s CHR '':'' = 1")
  case False
  then show ?thesis by (simp add: time_to_minutes_def length_split_on Let_def)
next
  case True
  have sp: "split_on CHR '':'' s = [hour_field s, minute_field s]"
    using split_one[OF True] by (simp add: hour_field_def minute_field_def)
  show ?thesis using assms True sp
    by (auto simp: time_to_minutes_def valid_clock_def int_or_zero_def Let_def split: option.splits)
qed

lemma time_to_minutes_range: "0 \<le> time_to_minutes s \<and> time_to_minutes s \<le> 1439"
  by (auto simp: time_to_minutes_def Let_def split: option.splits)

lemmas eval_time = time_to_minutes_def py_int_def strip_def is_space_def parse_unsigned_def
  int_max_str_digits_def is_digit_def digit_val_def

section \<open>Properties of the time utilities\<close>

text \<open>
  Claim C5. For every input string, \<open>time_to_minutes\<close> returns hours * 60 + minutes, a
  value from 0 to 1439, when the string has exactly one colon, both fields are numeric
  (accepted by \<open>int()\<close>), the hour is in 0 to 23 and the minute in 0 to 59; it returns 0
  for every other string. The function is total: the \<open>ValueError\<close> of \<open>int()\<close> is
  the \<open>None\<close> branch, which yields 0. In particular \<open>"09:30"\<close> gives 570,
  \<open>"invalid"\<close> gives 0 and \<open>"24:00"\<close> gives 0.
\<close>

theorem time_to_minutes_spec:
  "(valid_clock s \<longrightarrow>
      time_to_minutes s = int_or_zero (hour_field s) * 60 + int_or_zero (minute_field s)
      \<and> 0 \<le> time_to_minutes s \<and> time_to_minutes s \<le> 1439)
   \<and> (\<not> valid_clock s \<longrightarrow> time_to_minutes s = 0)
   \<and> time_to_minutes ''09:30'' = 570
   \<and> time_to_minutes ''invalid'' = 0
   \<and> time_to_minutes ''24:00'' = 0"
proof -
  have a: "time_to_minutes ''09:30'' = 570" by (simp add: eval_time)
  have b: "time_to_minutes ''invalid'' = 0" by (simp add: time_to_minutes_def)
  have c: "time_to_minutes ''24:00'' = 0" by (simp add: eval_time)
  show ?thesis
    using a b c time_to_minutes_valid[of s] time_to_minutes_invalid[of s] time_to_minutes_range[of s]
    by blast
qed

lemma valid_clock_0930: "valid_clock ''09:30''"
  by (simp add: valid_clock_def hour_field_def minute_field_def int_or_zero_def eval_time)
lemma invalid_clock_975: "\<not> valid_clock ''9:75''"
  by (simp add: valid_clock_def hour_field_def minute_field_def int_or_zero_def eval_time)

theorem time_to_minutes_spec_witness:
  "valid_clock ''09:30'' \<and> time_to_minutes ''09:30'' = 9 * 60 + 30
   \<and> \<not> valid_clock ''9:75'' \<and> time_to_minutes ''9:75'' = 0"
  using time_to_minutes_spec[of "''09:30''"] time_to_minutes_spec[of "''9:75''"] valid_clock_0930 invalid_clock_975
  by (simp add: int_or_zero_def hour_field_def minute_field_def eval_time)

text \<open>
  Claim C4. When the end is not earlier than the start in minutes, \<open>is_time_between\<close>
  holds exactly on the closed interval from start to end; when the end is strictly
  earlier than the start, it holds exactly when the current minute is at or after the
  start or at or before the end. The three examples of the specification are included.
\<close>

theorem is_time_between_spec:
  "(time_to_minutes start \<le> time_to_minutes end \<longrightarrow>
      is_time_between current start end =
        (time_to_minutes start \<le> time_to_minutes current \<and> time_to_minutes current \<le> time_to_minutes end))
   \<and> (time_to_minutes end < time_to_minutes start \<longrightarrow>
      is_time_between current start end =
        (time_to_minutes current \<ge> time_to_minutes start \<or> time_to_minutes current \<le> time_to_minutes end))
   \<and> is_time_between ''10:00'' ''09:00'' ''11:00''
   \<and> \<not> is_time_between ''08:00'' ''09:00'' ''11:00''
   \<and> is_time_between ''23:30'' ''22:00'' ''01:00''"
proof -
  have a: "is_time_between ''10:00'' ''09:00'' ''11:00''" by (simp add: is_time_between_def eval_time)
  have b: "\<not> is_time_between ''08:00'' ''09:00'' ''11:00''" by (simp add: is_time_between_def eval_time)
  have c: "is_time_between ''23:30'' ''22:00'' ''01:00''" by (simp add: is_time_between_def eval_time)
  show ?thesis using a b c by (auto simp: is_time_between_def Let_def)
qed

theorem is_time_between_spec_witness:
  "time_to_minutes ''09:00'' \<le> time_to_minutes ''11:00''
   \<and> is_time_between ''11:00'' ''09:00'' ''11:00''
   \<and> time_to_minutes ''01:00'' < time_to_minutes ''22:00''
   \<and> is_time_between ''00:30'' ''22:00'' ''01:00''
   \<and> \<not> is_time_between ''12:00'' ''22:00'' ''01:00''"
  using is_time_between_spec[of "''09:00''" "''11:00''" "''11:00''"]
        is_time_between_spec[of "''22:00''" "''01:00''" "''00:30''"]
        is_time_between_spec[of "''22:00''" "''01:00''" "''12:00''"]
  by (simp add: eval_time)

section \<open>Digits and zero-padded clock strings\<close>

lemma digit_char_table:
  "digit_char 0 = CHR ''0''" "digit_char 1 = CHR ''1''" "digit_char 2 = CHR ''2''"
  "digit_char 3 = CHR ''3''" "digit_char 4 = CHR ''4''" "digit_char 5 = CHR ''5''"
  "digit_char 6 = CHR ''6''" "digit_char 7 = CHR ''7''" "digit_char 8 = CHR ''8''"
  "digit_char 9 = CHR ''9''" "digit_char (Suc 0) = CHR ''1''"
  by (simp_all add: digit_char_def char_of_def bit_0)

lemma of_char_digit_char: "n < 10 \<Longrightarrow> (of_char (digit_char n) :: nat) = 48 + n"
  by (simp add: digit_char_def)

lemma digit_char_neq:
  assumes "n < 10" and "(of_char c :: nat) < 48 \<or> 57 < (of_char c :: nat)"
  shows "digit_char n \<noteq> c"
proof
  assume "digit_char n = c"
  then have "(of_char c :: nat) = 48 + n" using assms(1) of_char_digit_char by blast
  with assms show False by auto
qed

lemma digit_char_not_special:
  assumes "n < 10"
  shows "digit_char n \<noteq> CHR '':''" "digit_char n \<noteq> CHR ''-''" "digit_char n \<noteq> CHR ''+''"
        "digit_char n \<noteq> CHR ''_''" "\<not> is_space (digit_char n)"
proof -
  show "digit_char n \<noteq> CHR '':''" by (rule digit_char_neq[OF assms]) simp
  show "digit_char n \<noteq> CHR ''-''" by (rule digit_char_neq[OF assms]) simp
  show "digit_char n \<noteq> CHR ''+''" by (rule digit_char_neq[OF assms]) simp
  show "digit_char n \<noteq> CHR ''_''" by (rule digit_char_neq[OF assms]) simp
  show "\<not> is_space (digit_char n)" using assms by (simp add: is_space_def of_char_digit_char)
qed

lemma is_digit_digit_char: "n < 10 \<Longrightarrow> is_digit (digit_char n)"
  by (simp add: is_digit_def of_char_digit_char)

lemma digit_val_digit_char: "n < 10 \<Longrightarrow> digit_val (digit_char n) = n"
  by (simp add: digit_val_def of_char_digit_char)

lemma digit_char_le: "a < 10 \<Longrightarrow> b < 10 \<Longrightarrow> digit_char a \<le> digit_char b \<longleftrightarrow> a \<le> b"
  by (simp add: less_eq_char_def of_char_digit_char)

lemma digit_char_less: "a < 10 \<Longrightarrow> b < 10 \<Longrightarrow> digit_char a < digit_char b \<longleftrightarrow> a < b"
  by (simp add: less_char_def of_char_digit_char)

lemma digit_char_eq: "a < 10 \<Longrightarrow> b < 10 \<Longrightarrow> digit_char a = digit_char b \<longleftrightarrow> a = b"
  using digit_val_digit_char by metis

lemma py_int_two_digits:
  assumes "a < 10" "b < 10"
  shows "py_int [digit_char a, digit_char b] = Some (int (a * 10 + b))"
  using assms digit_char_not_special[of a] digit_char_not_special[of b]
  by (simp add: py_int_def strip_def parse_unsigned_def int_max_str_digits_def
        is_digit_digit_char digit_val_digit_char)

lemma time_to_minutes_hhmm:
  assumes "h < 24" "m < 60"
  shows "time_to_minutes (hhmm h m) = int (h * 60 + m)"
proof -
  have d: "h div 10 < 10" "h mod 10 < 10" "m div 10 < 10" "m mod 10 < 10" using assms by auto
  have sp: "split_on CHR '':'' (hhmm h m) =
      [[digit_char (h div 10), digit_char (h mod 10)], [digit_char (m div 10), digit_char (m mod 10)]]"
    using d digit_char_not_special(1) by (simp add: hhmm_def)
  have "time_to_minutes (hhmm h m) = int ((h div 10) * 10 + h mod 10) * 60 + int ((m div 10) * 10 + m mod 10)"
    unfolding time_to_minutes_def sp Let_def using assms d
    by (simp add: py_int_two_digits hhmm_def)
  then show ?thesis by simp
qed


lemma lex2:
  fixes a b a' b' :: nat
  assumes "b < k" "b' < k"
  shows "(a < a' \<or> a = a' \<and> b \<le> b') \<longleftrightarrow> k * a + b \<le> k * a' + b'"
proof (cases "a < a'")
  case True
  then have "Suc a \<le> a'" by simp
  then have "k * Suc a \<le> k * a'" by (rule mult_le_mono2)
  then have "k * a + b \<le> k * a' + b'" using assms by simp
  with True show ?thesis by simp
next
  case False
  show ?thesis
  proof (cases "a = a'")
    case True
    then show ?thesis by simp
  next
    case F2: False
    with False have "a' < a" by simp
    then have "Suc a' \<le> a" by simp
    then have "k * Suc a' \<le> k * a" by (rule mult_le_mono2)
    then have "k * a' + b' < k * a + b" using assms by simp
    with False F2 show ?thesis by simp
  qed
qed

lemma string5_le:
  fixes a b d e a' b' d' e' c :: char
  shows "[a, b, c, d, e] \<le> [a', b', c, d', e'] \<longleftrightarrow>
     (a < a' \<or> a = a' \<and> (b < b' \<or> b = b' \<and> (d < d' \<or> d = d' \<and> e \<le> e')))"
proof -
  have "[e] \<le> [e'] \<longleftrightarrow> e \<le> e'" by (auto simp: le_less)
  then show ?thesis by (simp only: Cons_le_Cons simp_thms less_irrefl)
qed

lemma hhmm_le:
  assumes "h < 24" "m < 60" "h' < 24" "m' < 60"
  shows "hhmm h m \<le> hhmm h' m' \<longleftrightarrow> h * 60 + m \<le> h' * 60 + m'"
proof -
  have d: "h div 10 < 10" "h mod 10 < 10" "m div 10 < 10" "m mod 10 < 10"
          "h' div 10 < 10" "h' mod 10 < 10" "m' div 10 < 10" "m' mod 10 < 10" using assms by auto
  have mm: "(m div 10 < m' div 10 \<or> m div 10 = m' div 10 \<and> m mod 10 \<le> m' mod 10) \<longleftrightarrow> m \<le> m'"
    using lex2[of "m mod 10" 10 "m' mod 10" "m div 10" "m' div 10"] d by simp
  have hm: "(h mod 10 < h' mod 10 \<or> h mod 10 = h' mod 10 \<and> m \<le> m')
      \<longleftrightarrow> 60 * (h mod 10) + m \<le> 60 * (h' mod 10) + m'"
    using lex2[of m 60 m' "h mod 10" "h' mod 10"] assms by simp
  have b: "60 * (h mod 10) + m < 600" "60 * (h' mod 10) + m' < 600" using d assms by simp_all
  have hh: "(h div 10 < h' div 10 \<or> h div 10 = h' div 10 \<and>
               60 * (h mod 10) + m \<le> 60 * (h' mod 10) + m')
      \<longleftrightarrow> 600 * (h div 10) + (60 * (h mod 10) + m) \<le> 600 * (h' div 10) + (60 * (h' mod 10) + m')"
    using lex2[OF b, of "h div 10" "h' div 10"] by simp
  have e1: "600 * (h div 10) + (60 * (h mod 10) + m) = h * 60 + m"
    using mult_div_mod_eq[of 10 h] by linarith
  have e2: "600 * (h' div 10) + (60 * (h' mod 10) + m') = h' * 60 + m'"
    using mult_div_mod_eq[of 10 h'] by linarith
  have "hhmm h m \<le> hhmm h' m' \<longleftrightarrow>
      (h div 10 < h' div 10 \<or> h div 10 = h' div 10 \<and>
        (h mod 10 < h' mod 10 \<or> h mod 10 = h' mod 10 \<and>
          (m div 10 < m' div 10 \<or> m div 10 = m' div 10 \<and> m mod 10 \<le> m' mod 10)))"
    unfolding hhmm_def string5_le
    by (simp only: digit_char_less[OF d(1) d(5)] digit_char_eq[OF d(1) d(5)]
                   digit_char_less[OF d(2) d(6)] digit_char_eq[OF d(2) d(6)]
                   digit_char_less[OF d(3) d(7)] digit_char_eq[OF d(3) d(7)]
                   digit_char_le[OF d(4) d(8)])
  then show ?thesis unfolding mm hm hh e1 e2 .
qed

section \<open>The recently ended class\<close>

lemma recent_scan_None:
  "recent_scan (strftime_A_lower now) (time_to_minutes (strftime_HM now)) xs recent g = None \<longleftrightarrow>
     recent = None \<and> (\<forall>ci \<in> set xs. \<not> (on_day_ended now ci \<and> 0 < ended_gap now ci \<and> ended_gap now ci < g))"
proof (induction xs arbitrary: recent g)
  case Nil
  then show ?case by simp
next
  case (Cons ci rest)
  show ?case
    unfolding recent_scan.simps Let_def
    by (auto simp: Cons.IH on_day_ended_def ended_gap_def)
qed

lemma recent_scan_Some:
  "recent_scan (strftime_A_lower now) (time_to_minutes (strftime_HM now)) xs recent g = Some r \<Longrightarrow>
     (recent = Some r \<and> (\<forall>ci \<in> set xs. \<not> (on_day_ended now ci \<and> 0 < ended_gap now ci \<and> ended_gap now ci < g)))
     \<or> (\<exists>ci \<in> set xs. on_day_ended now ci \<and> 0 < ended_gap now ci \<and> ended_gap now ci < g
            \<and> r = recent_of now ci
            \<and> (\<forall>ci' \<in> set xs. on_day_ended now ci' \<and> 0 < ended_gap now ci'
                   \<longrightarrow> ended_gap now ci \<le> ended_gap now ci'))"
proof (induction xs arbitrary: recent g)
  case Nil
  then show ?case by simp
next
  case (Cons ci rest)
  let ?better = "on_day_ended now ci \<and> 0 < ended_gap now ci \<and> ended_gap now ci < g"
  show ?case
  proof (cases ?better)
    case True
    then have "recent_scan (strftime_A_lower now) (time_to_minutes (strftime_HM now)) rest
                 (Some (recent_of now ci)) (ended_gap now ci) = Some r"
      using Cons.prems by (simp add: on_day_ended_def ended_gap_def recent_of_def Let_def)
    from Cons.IH[OF this] show ?thesis
    proof
      assume a: "Some (recent_of now ci) = Some r \<and>
        (\<forall>ci'\<in>set rest. \<not> (on_day_ended now ci' \<and> 0 < ended_gap now ci' \<and> ended_gap now ci' < ended_gap now ci))"
      have "\<forall>ci'\<in>set (ci # rest). on_day_ended now ci' \<and> 0 < ended_gap now ci'
              \<longrightarrow> ended_gap now ci \<le> ended_gap now ci'"
        using a by force
      with True a show ?thesis by auto
    next
      assume "\<exists>cj\<in>set rest. on_day_ended now cj \<and> 0 < ended_gap now cj \<and> ended_gap now cj < ended_gap now ci
            \<and> r = recent_of now cj
            \<and> (\<forall>ci' \<in> set rest. on_day_ended now ci' \<and> 0 < ended_gap now ci'
                   \<longrightarrow> ended_gap now cj \<le> ended_gap now ci')"
      then obtain cj where cj: "cj \<in> set rest" "on_day_ended now cj" "0 < ended_gap now cj"
          "ended_gap now cj < ended_gap now ci" "r = recent_of now cj"
          "\<forall>ci' \<in> set rest. on_day_ended now ci' \<and> 0 < ended_gap now ci'
                   \<longrightarrow> ended_gap now cj \<le> ended_gap now ci'"
        by blast
      have "\<forall>ci'\<in>set (ci # rest). on_day_ended now ci' \<and> 0 < ended_gap now ci'
              \<longrightarrow> ended_gap now cj \<le> ended_gap now ci'"
        using cj by auto
      moreover have "ended_gap now cj < g" using cj True by linarith
      ultimately show ?thesis using cj by auto
    qed
  next
    case False
    then have "recent_scan (strftime_A_lower now) (time_to_minutes (strftime_HM now)) rest recent g = Some r"
      using Cons.prems by (auto simp: on_day_ended_def ended_gap_def Let_def split: if_splits)
    from Cons.IH[OF this] show ?thesis
    proof
      assume "recent = Some r \<and>
        (\<forall>ci'\<in>set rest. \<not> (on_day_ended now ci' \<and> 0 < ended_gap now ci' \<and> ended_gap now ci' < g))"
      with False show ?thesis by auto
    next
      assume "\<exists>cj\<in>set rest. on_day_ended now cj \<and> 0 < ended_gap now cj \<and> ended_gap now cj < g
            \<and> r = recent_of now cj
            \<and> (\<forall>ci' \<in> set rest. on_day_ended now ci' \<and> 0 < ended_gap now ci'
                   \<longrightarrow> ended_gap now cj \<le> ended_gap now ci')"
      then obtain cj where cj: "cj \<in> set rest" "on_day_ended now cj" "0 < ended_gap now cj"
          "ended_gap now cj < g" "r = recent_of now cj"
          "\<forall>ci' \<in> set rest. on_day_ended now ci' \<and> 0 < ended_gap now ci'
                   \<longrightarrow> ended_gap now cj \<le> ended_gap now ci'"
        by blast
      have "\<forall>ci'\<in>set (ci # rest). on_day_ended now ci' \<and> 0 < ended_gap now ci'
              \<longrightarrow> ended_gap now cj \<le> ended_gap now ci'"
        using cj False by auto
      then show ?thesis using cj by auto
    qed
  qed
qed

lemma user_schedule_absent: "e_schedules engine user_id = None \<Longrightarrow> user_schedule engine user_id = []"
  by (simp add: user_schedule_def)

lemmas eval_clock = hhmm_def strftime_HM_def strftime_A_lower_def digit_char_table get_or_def

lemma alice_schedule:
  "user_schedule sample_engine ''alice'' =
        [mk_class ''CS 15-122'' ''Principles of Imperative Computation'' ''friday'' ''09:00'' ''10:20'' ''GHC 4401'',
         mk_class ''CS 15-122'' ''Principles of Imperative Computation'' ''monday'' ''09:00'' ''10:20'' ''GHC 4401'',
         mk_class ''MATH 21-127'' ''Concepts of Mathematics'' ''tuesday'' ''11:30'' ''12:50'' ''DH 2210'',
         mk_class ''MATH 21-127'' ''Concepts of Mathematics'' ''thursday'' ''11:30'' ''12:50'' ''DH 2210'']"
  by (simp add: user_schedule_def sample_engine_def sample_schedules_def get_or_def)

lemma now_1030: "strftime_HM friday_1030 = ''10:30''" "strftime_A_lower friday_1030 = ''friday''"
  by (simp_all add: friday_1030_def eval_clock)

lemma alice_recent:
  "get_recent_class_for_user sample_engine ''alice'' friday_1030 =
     Some \<lparr>rc_courseCode = ''CS 15-122'', rc_courseName = ''Principles of Imperative Computation'',
           endedMinutesAgo = 10\<rparr>"
proof -
  have "e_schedules sample_engine ''alice'' \<noteq> None"
    by (simp add: sample_engine_def sample_schedules_def)
  then show ?thesis
    by (simp add: get_recent_class_for_user_def alice_schedule now_1030 mk_class_def get_or_def eval_time)
qed

text \<open>
  Claim C6. The recently-ended-class computation returns an entry of the reference day
  whose end time is strictly before the reference time, with gap = reference minutes minus
  end minutes and 0 < gap < 60, and no qualifying entry has a smaller gap; it returns
  nothing exactly when no entry of the reference day ended within the last 59 minutes.
\<close>

theorem recent_class_spec:
  "(get_recent_class_for_user engine user_id now = None \<longleftrightarrow>
      (\<forall>ci \<in> set (user_schedule engine user_id). \<not> recently_ended now ci))
   \<and> (\<forall>r. get_recent_class_for_user engine user_id now = Some r \<longrightarrow>
        (\<exists>ci \<in> set (user_schedule engine user_id).
            recently_ended now ci
          \<and> time_to_minutes (get_or (ci_endTime ci) []) < time_to_minutes (strftime_HM now)
          \<and> r = recent_of now ci
          \<and> endedMinutesAgo r = ended_gap now ci
          \<and> (\<forall>ci' \<in> set (user_schedule engine user_id).
                 recently_ended now ci' \<longrightarrow> ended_gap now ci \<le> ended_gap now ci')))"
proof (cases "e_schedules engine user_id = None")
  case True
  then show ?thesis
    by (simp add: get_recent_class_for_user_def user_schedule_absent)
next
  case False
  have eq: "get_recent_class_for_user engine user_id now =
      recent_scan (strftime_A_lower now) (time_to_minutes (strftime_HM now))
             (user_schedule engine user_id) None 60"
    using False by (auto simp: get_recent_class_for_user_def)
  have a: "get_recent_class_for_user engine user_id now = None \<longleftrightarrow>
      (\<forall>ci \<in> set (user_schedule engine user_id). \<not> recently_ended now ci)"
    unfolding eq recent_scan_None by (simp add: recently_ended_def)
  have b: "\<exists>ci \<in> set (user_schedule engine user_id).
            recently_ended now ci
          \<and> time_to_minutes (get_or (ci_endTime ci) []) < time_to_minutes (strftime_HM now)
          \<and> r = recent_of now ci
          \<and> endedMinutesAgo r = ended_gap now ci
          \<and> (\<forall>ci' \<in> set (user_schedule engine user_id).
                 recently_ended now ci' \<longrightarrow> ended_gap now ci \<le> ended_gap now ci')"
    if "get_recent_class_for_user engine user_id now = Some r" for r
  proof -
    from that have "recent_scan (strftime_A_lower now) (time_to_minutes (strftime_HM now))
             (user_schedule engine user_id) None 60 = Some r" by (simp add: eq)
    from recent_scan_Some[OF this] obtain ci where ci: "ci \<in> set (user_schedule engine user_id)"
      "on_day_ended now ci" "0 < ended_gap now ci" "ended_gap now ci < 60" "r = recent_of now ci"
      "\<forall>ci' \<in> set (user_schedule engine user_id). on_day_ended now ci' \<and> 0 < ended_gap now ci'
                   \<longrightarrow> ended_gap now ci \<le> ended_gap now ci'"
      by auto
    have "time_to_minutes (get_or (ci_endTime ci) []) < time_to_minutes (strftime_HM now)"
      using ci(3) by (simp add: ended_gap_def)
    moreover have "endedMinutesAgo r = ended_gap now ci" using ci(5) by (simp add: recent_of_def)
    ultimately show ?thesis using ci by (auto simp: recently_ended_def)
  qed
  show ?thesis using a b by blast
qed

theorem recent_class_spec_witness:
  "get_recent_class_for_user sample_engine ''alice'' friday_1030 =
     Some \<lparr>rc_courseCode = ''CS 15-122'', rc_courseName = ''Principles of Imperative Computation'',
           endedMinutesAgo = 10\<rparr>
   \<and> (\<exists>ci \<in> set (user_schedule sample_engine ''alice'').
         recently_ended friday_1030 ci \<and> ended_gap friday_1030 ci = 10
       \<and> time_to_minutes (get_or (ci_endTime ci) []) < time_to_minutes (strftime_HM friday_1030)
       \<and> (\<forall>ci' \<in> set (user_schedule sample_engine ''alice'').
             recently_ended friday_1030 ci' \<longrightarrow> 10 \<le> ended_gap friday_1030 ci'))
   \<and> get_recent_class_for_user sample_engine ''david'' friday_1030 = None"
proof -
  have "\<forall>ci \<in> set (user_schedule sample_engine ''david''). \<not> recently_ended friday_1030 ci"
    by (simp add: user_schedule_def sample_engine_def sample_schedules_def)
  then have d: "get_recent_class_for_user sample_engine ''david'' friday_1030 = None"
    using recent_class_spec[of sample_engine "''david''" friday_1030] by blast
  show ?thesis
    using recent_class_spec[of sample_engine "''alice''" friday_1030] alice_recent d
    by (auto simp: recent_of_def)
qed

section \<open>The availability resolver\<close>





section \<open>Removing a schedule entry\<close>

text \<open>
  Claim C7. Deleting a schedule entry fails with the authorization error when the entry
  belongs to another user and with the not-found error when the id is absent; in both
  cases the store is returned unchanged. On success the entry is removed from the schedule
  map, its id is removed from the requester's id list, and nothing else changes.
\<close>

theorem remove_schedule_spec:
  "(schedules self schedule_id = None \<longrightarrow>
      remove_schedule self schedule_id user_id = (Inl (ValueError ''Schedule not found''), self))
   \<and> (\<forall>sch. schedules self schedule_id = Some sch \<and> s_user_id sch \<noteq> user_id \<longrightarrow>
        remove_schedule self schedule_id user_id =
          (Inl (ValueError ''Not authorized to remove this schedule''), self))
   \<and> (\<forall>sch. schedules self schedule_id = Some sch \<and> s_user_id sch = user_id \<longrightarrow>
        fst (remove_schedule self schedule_id user_id) = Inr ()
      \<and> users (snd (remove_schedule self schedule_id user_id)) = users self
      \<and> schedules (snd (remove_schedule self schedule_id user_id)) schedule_id = None
      \<and> (\<forall>k. k \<noteq> schedule_id \<longrightarrow>
            schedules (snd (remove_schedule self schedule_id user_id)) k = schedules self k)
      \<and> (\<forall>u. u \<noteq> user_id \<longrightarrow>
            user_schedules (snd (remove_schedule self schedule_id user_id)) u = user_schedules self u)
      \<and> get_or (user_schedules (snd (remove_schedule self schedule_id user_id)) user_id) [] =
          filter (\<lambda>sid. sid \<noteq> schedule_id) (get_or (user_schedules self user_id) []))"
  by (auto simp: remove_schedule_def get_or_def)

lemma demo_store_lookup:
  "schedules demo_store ''a1'' = Some (mk_schedule ''a1'' ''alice'' ''CS 15-122'' MONDAY ''09:00'' ''10:20'')"
  "schedules demo_store ''zz'' = None"
  "user_schedules demo_store ''alice'' = Some [''a1'', ''a2'']"
  by (simp_all add: demo_store_def)

theorem remove_schedule_spec_witness:
  "remove_schedule demo_store ''zz'' ''alice'' = (Inl (ValueError ''Schedule not found''), demo_store)
   \<and> remove_schedule demo_store ''a1'' ''bob'' =
        (Inl (ValueError ''Not authorized to remove this schedule''), demo_store)
   \<and> fst (remove_schedule demo_store ''a1'' ''alice'') = Inr ()
   \<and> schedules (snd (remove_schedule demo_store ''a1'' ''alice'')) ''a1'' = None
   \<and> schedules (snd (remove_schedule demo_store ''a1'' ''alice'')) ''a2'' = schedules demo_store ''a2''
   \<and> user_schedules (snd (remove_schedule demo_store ''a1'' ''alice'')) ''bob'' = user_schedules demo_store ''bob''
   \<and> get_or (user_schedules (snd (remove_schedule demo_store ''a1'' ''alice'')) ''alice'') [] = [''a2'']"
proof -
  have a: "s_user_id (mk_schedule ''a1'' ''alice'' ''CS 15-122'' MONDAY ''09:00'' ''10:20'') = ''alice''"
    by (simp add: mk_schedule_def)
  have b: "s_user_id (mk_schedule ''a1'' ''alice'' ''CS 15-122'' MONDAY ''09:00'' ''10:20'') \<noteq> ''bob''"
    by (simp add: mk_schedule_def)
  have n: "''a2'' \<noteq> ''a1''" "''bob'' \<noteq> ''alice''" by simp_all
  show ?thesis
    using remove_schedule_spec[of demo_store "''zz''" "''alice''"]
          remove_schedule_spec[of demo_store "''a1''" "''bob''"]
          remove_schedule_spec[of demo_store "''a1''" "''alice''"]
          demo_store_lookup a b n
    by (simp add: get_or_def)
qed

section \<open>String comparison of clock strings against the minute comparison\<close>

lemma digit_char_digit_val: "is_digit c \<Longrightarrow> digit_char (digit_val c) = c \<and> digit_val c < 10"
proof -
  assume d: "is_digit c"
  then have "48 + (of_char c - 48) = (of_char c :: nat)" by (simp add: is_digit_def)
  then have "char_of (48 + (of_char c - 48 :: nat)) = c" by simp
  moreover have "(of_char c :: nat) - 48 < 10" using d by (auto simp: is_digit_def)
  ultimately show ?thesis by (simp add: digit_char_def digit_val_def)
qed

lemma list5: "length s = 5 \<Longrightarrow> s = [s ! 0, s ! 1, s ! 2, s ! 3, s ! 4]"
  by (auto simp: list_eq_iff_nth_eq less_Suc_eq numeral_eq_Suc)

lemma is_hhmm_hhmm:
  assumes "is_hhmm s"
  shows "\<exists>h m. h < 24 \<and> m < 60 \<and> s = hhmm h m"
proof -
  let ?a = "digit_val (s ! 0)" and ?b = "digit_val (s ! 1)"
  let ?c = "digit_val (s ! 3)" and ?d = "digit_val (s ! 4)"
  from assms have len: "length s = 5" and col: "s ! 2 = CHR '':''"
    and r: "?a * 10 + ?b \<le> 23" "?c * 10 + ?d \<le> 59"
    and dg: "is_digit (s ! 0)" "is_digit (s ! 1)" "is_digit (s ! 3)" "is_digit (s ! 4)"
    by (simp_all add: is_hhmm_def)
  note a = digit_char_digit_val[OF dg(1)] and b = digit_char_digit_val[OF dg(2)]
   and c = digit_char_digit_val[OF dg(3)] and d = digit_char_digit_val[OF dg(4)]
  have h: "(?a * 10 + ?b) div 10 = ?a" "(?a * 10 + ?b) mod 10 = ?b" using b by simp_all
  have m: "(?c * 10 + ?d) div 10 = ?c" "(?c * 10 + ?d) mod 10 = ?d" using d by simp_all
  have "hhmm (?a * 10 + ?b) (?c * 10 + ?d) = [s ! 0, s ! 1, s ! 2, s ! 3, s ! 4]"
    unfolding hhmm_def h m using a b c d col by simp
  then have "s = hhmm (?a * 10 + ?b) (?c * 10 + ?d)" using list5[OF len] by simp
  moreover have "?a * 10 + ?b < 24" "?c * 10 + ?d < 60" using r by simp_all
  ultimately show ?thesis by blast
qed

lemma is_hhmm_nonempty: "is_hhmm s \<Longrightarrow> s \<noteq> []"
  by (auto simp: is_hhmm_def)

lemma hhmm_is_hhmm: "h < 24 \<Longrightarrow> m < 60 \<Longrightarrow> is_hhmm (hhmm h m)"
proof -
  assume hm: "h < 24" "m < 60"
  then have d: "h div 10 < 10" "h mod 10 < 10" "m div 10 < 10" "m mod 10 < 10" by auto
  have "h div 10 * 10 + h mod 10 = h" "m div 10 * 10 + m mod 10 = m" by simp_all
  then show ?thesis using hm d
    by (simp add: is_hhmm_def hhmm_def is_digit_digit_char digit_val_digit_char)
qed

lemma string_le_iff_minutes_le:
  assumes "is_hhmm s" "is_hhmm t"
  shows "s \<le> t \<longleftrightarrow> time_to_minutes s \<le> time_to_minutes t"
proof -
  from is_hhmm_hhmm[OF assms(1)] obtain h m where s: "h < 24" "m < 60" "s = hhmm h m" by blast
  from is_hhmm_hhmm[OF assms(2)] obtain h' m' where t: "h' < 24" "m' < 60" "t = hhmm h' m'" by blast
  have "s \<le> t \<longleftrightarrow> h * 60 + m \<le> h' * 60 + m'"
    unfolding s(3) t(3) using hhmm_le[OF s(1,2) t(1,2)] .
  also have "\<dots> \<longleftrightarrow> int (h * 60 + m) \<le> int (h' * 60 + m')" by (simp only: of_nat_le_iff)
  also have "\<dots> \<longleftrightarrow> time_to_minutes s \<le> time_to_minutes t"
    unfolding s(3) t(3) time_to_minutes_hhmm[OF s(1,2)] time_to_minutes_hhmm[OF t(1,2)] ..
  finally show ?thesis .
qed

lemma string_between_iff:
  assumes "is_hhmm current" "is_hhmm start" "is_hhmm end"
    and "time_to_minutes start \<le> time_to_minutes end"
  shows "(start \<le> current \<and> current \<le> end) = is_time_between current start end"
  using assms(4)
  by (simp add: is_time_between_def Let_def string_le_iff_minutes_le[OF assms(2) assms(1)]
        string_le_iff_minutes_le[OF assms(1) assms(3)])

lemma day_value_inj: "day_value d = day_value d' \<longleftrightarrow> d = d'"
  by (cases d; cases d'; simp)

lemma current_class_scans_agree:
  assumes "is_hhmm current_time" and "list_all wellformed_times scheds"
  shows "current_class_scan (day_value current_day) current_time (map class_info_of scheds) =
           (case find_current_class current_day current_time scheds of
              None \<Rightarrow> ''Free'' | Some code \<Rightarrow> ''In '' @ code)"
  using assms(2)
proof (induction scheds)
  case Nil
  then show ?case by simp
next
  case (Cons s rest)
  then have w: "wellformed_times s" and r: "list_all wellformed_times rest" by simp_all
  from w have hs: "is_hhmm (start_time s)" and he: "is_hhmm (end_time s)"
    and le: "time_to_minutes (start_time s) \<le> time_to_minutes (end_time s)"
    by (simp_all add: wellformed_times_def)
  have ne: "start_time s \<noteq> []" "end_time s \<noteq> []"
    using hs he by (simp_all add: is_hhmm_nonempty)
  have btw: "(start_time s \<le> current_time \<and> current_time \<le> end_time s)
               = is_time_between current_time (start_time s) (end_time s)"
    by (rule string_between_iff[OF assms(1) hs he le])
  show ?case
    using Cons.IH[OF r] ne btw
    by (simp add: class_info_of_def get_or_def day_value_inj Let_def)
qed

text \<open>
  Claim C10. For zero-padded "HH:MM" strings with the hour from 0 to 23 and the minute
  from 0 to 59 and the start not later than the end, the lexicographic comparison
  \<open>start_time <= current <= end_time\<close> of the status board and of the recommendations has
  the truth value of \<open>is_time_between(current, start, end)\<close>. Hence, on schedule entries
  with such times and at a valid time of day, the scan of services.py and the scan of
  algorithm.py find the same class: one returns the course code or nothing, the other
  "In " followed by that course code or "Free".
\<close>

theorem string_comparison_agrees:
  "(is_hhmm current \<and> is_hhmm start \<and> is_hhmm end
      \<and> time_to_minutes start \<le> time_to_minutes end \<longrightarrow>
      (start \<le> current \<and> current \<le> end) = is_time_between current start end)
   \<and> (dt_hour now < 24 \<and> dt_minute now < 60 \<and> list_all wellformed_times scheds \<longrightarrow>
        current_class_scan (strftime_A_lower now) (strftime_HM now) (map class_info_of scheds) =
          (case find_current_class (dt_weekday now) (strftime_HM now) scheds of
             None \<Rightarrow> ''Free'' | Some code \<Rightarrow> ''In '' @ code))"
proof (rule conjI)
  show "is_hhmm current \<and> is_hhmm start \<and> is_hhmm end
      \<and> time_to_minutes start \<le> time_to_minutes end \<longrightarrow>
      (start \<le> current \<and> current \<le> end) = is_time_between current start end"
    using string_between_iff by blast
  show "dt_hour now < 24 \<and> dt_minute now < 60 \<and> list_all wellformed_times scheds \<longrightarrow>
        current_class_scan (strftime_A_lower now) (strftime_HM now) (map class_info_of scheds) =
          (case find_current_class (dt_weekday now) (strftime_HM now) scheds of
             None \<Rightarrow> ''Free'' | Some code \<Rightarrow> ''In '' @ code)"
  proof (intro impI)
    assume a: "dt_hour now < 24 \<and> dt_minute now < 60 \<and> list_all wellformed_times scheds"
    then have "is_hhmm (strftime_HM now)" by (simp add: strftime_HM_def hhmm_is_hhmm)
    from current_class_scans_agree[OF this, of scheds "dt_weekday now"] a
    show "current_class_scan (strftime_A_lower now) (strftime_HM now) (map class_info_of scheds) =
          (case find_current_class (dt_weekday now) (strftime_HM now) scheds of
             None \<Rightarrow> ''Free'' | Some code \<Rightarrow> ''In '' @ code)"
      by (simp add: strftime_A_lower_def)
  qed
qed

lemma is_hhmm_examples: "is_hhmm ''09:30''" "is_hhmm ''09:00''" "is_hhmm ''10:20''"
  by (simp_all add: is_hhmm_def is_digit_def digit_val_def)

lemma minutes_examples: "time_to_minutes ''09:00'' = 540" "time_to_minutes ''10:20'' = 620"
  by (simp_all add: eval_time)

theorem string_comparison_agrees_witness:
  "is_hhmm ''09:30'' \<and> is_hhmm ''09:00'' \<and> is_hhmm ''10:20''
   \<and> time_to_minutes ''09:00'' \<le> time_to_minutes ''10:20''
   \<and> (''09:00'' \<le> ''09:30'' \<and> ''09:30'' \<le> ''10:20'')
   \<and> is_time_between ''09:30'' ''09:00'' ''10:20''
   \<and> list_all wellformed_times [mk_schedule ''a1'' ''alice'' ''CS 15-122'' MONDAY ''09:00'' ''10:20'']
   \<and> current_class_scan (strftime_A_lower monday_0930) (strftime_HM monday_0930)
        (map class_info_of [mk_schedule ''a1'' ''alice'' ''CS 15-122'' MONDAY ''09:00'' ''10:20''])
       = ''In CS 15-122''"
proof -
  have le: "time_to_minutes ''09:00'' \<le> time_to_minutes ''10:20''" by (simp add: minutes_examples)
  have cmp: "''09:00'' \<le> ''09:30'' \<and> ''09:30'' \<le> ''10:20''" by simp
  have wf: "list_all wellformed_times [mk_schedule ''a1'' ''alice'' ''CS 15-122'' MONDAY ''09:00'' ''10:20'']"
    by (simp add: wellformed_times_def mk_schedule_def is_hhmm_examples minutes_examples)
  have now: "dt_hour monday_0930 < 24 \<and> dt_minute monday_0930 < 60 \<and> dt_weekday monday_0930 = MONDAY"
    "strftime_HM monday_0930 = ''09:30''"
    by (simp_all add: monday_0930_def eval_clock)
  have btw: "is_time_between ''09:30'' ''09:00'' ''10:20''"
    using string_comparison_agrees[of "''09:30''" "''09:00''" "''10:20''" monday_0930 "[]"]
          is_hhmm_examples le cmp by simp
  have scan: "current_class_scan (strftime_A_lower monday_0930) (strftime_HM monday_0930)
        (map class_info_of [mk_schedule ''a1'' ''alice'' ''CS 15-122'' MONDAY ''09:00'' ''10:20''])
       = ''In CS 15-122''"
    using string_comparison_agrees[of "''09:30''" "''09:00''" "''10:20''" monday_0930
            "[mk_schedule ''a1'' ''alice'' ''CS 15-122'' MONDAY ''09:00'' ''10:20'']"]
          now wf
    by (simp add: mk_schedule_def)
  show ?thesis using is_hhmm_examples le conjunct1[OF cmp] conjunct2[OF cmp] btw wf scan
    by (intro conjI)
qed

section \<open>The services return on well-formed start times\<close>

lemma split_on_hhmm:
  assumes "h < 24" "m < 60"
  shows "split_on CHR '':'' (hhmm h m) =
      [[digit_char (h div 10), digit_char (h mod 10)], [digit_char (m div 10), digit_char (m mod 10)]]"
proof -
  have d: "h div 10 < 10" "h mod 10 < 10" "m div 10 < 10" "m mod 10 < 10" using assms by auto
  show ?thesis using d digit_char_not_special(1) by (simp add: hhmm_def)
qed

lemma format_time_returns: "is_hhmm t \<Longrightarrow> \<exists>r. format_time t = Inr r"
proof -
  assume "is_hhmm t"
  from is_hhmm_hhmm[OF this] obtain h m where hm: "h < 24" "m < 60" "t = hhmm h m" by blast
  have d: "h div 10 < 10" "h mod 10 < 10" "m div 10 < 10" "m mod 10 < 10" using hm by auto
  show ?thesis
    unfolding hm(3) format_time_def split_on_hhmm[OF hm(1,2)]
    by (simp add: py_int_two_digits[OF d(1,2)] py_int_two_digits[OF d(3,4)] Let_def)
qed

lemma min_by_start_member: "min_by_start best xs \<in> set (best # xs)"
  by (induction xs arbitrary: best) (auto split: if_splits)

lemma find_next_class_returns:
  assumes "list_all (\<lambda>s. is_hhmm (start_time s)) scheds"
  shows "\<exists>r. find_next_class d t scheds = Inr r"
proof (cases "filter (\<lambda>s. start_time s > t) (filter (\<lambda>s. day s = d) scheds)")
  case Nil
  then show ?thesis by (simp add: find_next_class_def)
next
  case (Cons f fs)
  have "min_by_start f fs \<in> set (f # fs)" by (rule min_by_start_member)
  then have "min_by_start f fs \<in> set scheds" using Cons[symmetric] by auto
  then have "is_hhmm (start_time (min_by_start f fs))" using assms by (simp add: list_all_iff)
  from format_time_returns[OF this] obtain r where "format_time (start_time (min_by_start f fs)) = Inr r"
    by blast
  then show ?thesis using Cons by (simp add: find_next_class_def Let_def)
qed

lemma candidate_returns:
  assumes "list_all (\<lambda>s. is_hhmm (start_time s)) (get_user_schedules ss oid)"
  shows "\<exists>r. candidate ss st now user uc oid ou = Inr r"
proof -
  from find_next_class_returns[OF assms] obtain r where
    "find_next_class (dt_weekday now) (strftime_HM now) (get_user_schedules ss oid) = Inr r"
    by blast
  then show ?thesis by (simp add: candidate_def Let_def)
qed

lemma recommendation_loop_returns:
  assumes "list_all (\<lambda>entry. list_all (\<lambda>s. is_hhmm (start_time s)) (get_user_schedules ss (fst entry))) us"
  shows "\<exists>recs. recommendation_loop ss st now uid user uc us acc = Inr recs"
  using assms
proof (induction us arbitrary: acc)
  case Nil
  then show ?case by simp
next
  case (Cons entry rest)
  obtain oid ou where e: "entry = (oid, ou)" by (cases entry)
  from Cons.prems e have ok: "list_all (\<lambda>s. is_hhmm (start_time s)) (get_user_schedules ss oid)"
    and rest: "list_all (\<lambda>entry. list_all (\<lambda>s. is_hhmm (start_time s))
                 (get_user_schedules ss (fst entry))) rest" by simp_all
  from candidate_returns[OF ok] obtain r where r: "candidate ss st now user uc oid ou = Inr r"
    by blast
  show ?case
  proof (cases r)
    case None
    with r e Cons.IH[OF rest, of acc] show ?thesis by simp
  next
    case (Some p)
    with r e Cons.IH[OF rest, of acc] Cons.IH[OF rest, of "acc @ [p]"] show ?thesis by simp
  qed
qed

lemma get_recommendations_returns:
  assumes "start_times_ok ss"
  shows "\<exists>recs. get_recommendations ss st now uid = Inr recs"
proof (cases "get_user ss uid")
  case None
  then show ?thesis by (simp add: get_recommendations_def)
next
  case (Some user)
  from recommendation_loop_returns[OF assms[unfolded start_times_ok_def]] obtain recs where
    "recommendation_loop ss st now uid user (course_codes (get_user_schedules ss uid)) (users ss) [] = Inr recs"
    by blast
  then show ?thesis using Some by (simp add: get_recommendations_def Let_def)
qed

lemma board_entry_returns:
  assumes "list_all (\<lambda>s. is_hhmm (start_time s)) (get_user_schedules ss uid)"
  shows "\<exists>b. board_entry ss st now uid user = Inr b"
proof -
  from find_next_class_returns[OF assms] obtain r where
    "find_next_class (dt_weekday now) (strftime_HM now) (get_user_schedules ss uid) = Inr r"
    by blast
  then show ?thesis by (simp add: board_entry_def Let_def)
qed

lemma status_loop_returns:
  assumes "list_all (\<lambda>entry. list_all (\<lambda>s. is_hhmm (start_time s)) (get_user_schedules ss (fst entry))) us"
  shows "\<exists>r. status_loop ss st now us ic fr = Inr r"
  using assms
proof (induction us arbitrary: ic fr)
  case Nil
  then show ?case by simp
next
  case (Cons entry rest)
  obtain uid user where e: "entry = (uid, user)" by (cases entry)
  from Cons.prems e have ok: "list_all (\<lambda>s. is_hhmm (start_time s)) (get_user_schedules ss uid)"
    and rest: "list_all (\<lambda>entry. list_all (\<lambda>s. is_hhmm (start_time s))
                 (get_user_schedules ss (fst entry))) rest" by simp_all
  from board_entry_returns[OF ok] obtain b where b: "board_entry ss st now uid user = Inr b"
    by blast
  show ?case
    using b e Cons.IH[OF rest, of "ic @ [b]" fr] Cons.IH[OF rest, of ic "fr @ [b]"] by simp
qed

lemma get_current_status_returns:
  assumes "start_times_ok ss"
  shows "\<exists>resp. get_current_status ss st now = Inr resp"
proof -
  from status_loop_returns[OF assms[unfolded start_times_ok_def]] obtain r where
    "status_loop ss st now (users ss) [] [] = Inr r" by blast
  then show ?thesis by (cases r) (simp add: get_current_status_def)
qed

section \<open>The recommendation loop\<close>

lemma shared_list_set:
  "set (intersection_list (course_codes (get_user_schedules ss uid))
          (course_codes (get_user_schedules ss oid))) = shared_courses ss uid oid"
  by (auto simp: shared_courses_def courses_of_def course_codes_def intersection_list_def)

lemma shared_list_distinct:
  "distinct (intersection_list (course_codes (get_user_schedules ss uid))
          (course_codes (get_user_schedules ss oid)))"
  by (simp add: course_codes_def intersection_list_def)

lemma shared_list_length:
  "length (intersection_list (course_codes (get_user_schedules ss uid))
          (course_codes (get_user_schedules ss oid))) = card (shared_courses ss uid oid)"
  using distinct_card[OF shared_list_distinct[of ss uid oid]] shared_list_set[of ss uid oid]
  by simp

lemma shared_list_empty:
  "intersection_list (course_codes (get_user_schedules ss uid))
          (course_codes (get_user_schedules ss oid)) = [] \<longleftrightarrow> shared_courses ss uid oid = {}"
  using shared_list_set[of ss uid oid] by (metis set_empty)

lemma candidate_None_iff:
  "candidate ss st now user (course_codes (get_user_schedules ss uid)) oid ou = Inr None
     \<longleftrightarrow> shared_courses ss uid oid = {}"
  unfolding shared_list_empty[symmetric]
  by (simp add: candidate_def Let_def split: sum.splits)

lemma candidate_Some:
  assumes "candidate ss st now user (course_codes (get_user_schedules ss uid)) oid ou = Inr (Some p)"
  shows "shared_courses ss uid oid \<noteq> {}"
    and "p_id p = u_id ou"
    and "set (shared_classes p) = shared_courses ss uid oid"
    and "distinct (shared_classes p)"
    and "score p = 20 * int (card (shared_courses ss uid oid))
           + (if u_major user = u_major ou then 15 else 0)
           + (if get_user_status st oid \<in> {STUDYING, HELP, FREE} then 10 else 0)"
    and "reason p = ''Shares '' @ str_nat (card (shared_courses ss uid oid))
           @ (if card (shared_courses ss uid oid) > 1 then '' classes'' else '' class'')
           @ '' with you''
           @ (if u_major user = u_major ou then ''; Same major ('' @ u_major user @ '')'' else [])
           @ (if get_user_status st oid = HELP then ''; Available to help''
              else if get_user_status st oid = STUDYING then ''; Currently studying'' else [])"
proof -
  have ne: "shared_courses ss uid oid \<noteq> {}"
    using assms candidate_None_iff[of ss st now user uid oid ou] by auto
  then show "shared_courses ss uid oid \<noteq> {}" .
  from ne have ne': "intersection_list (course_codes (get_user_schedules ss uid))
          (course_codes (get_user_schedules ss oid)) \<noteq> []" by (simp add: shared_list_empty)
  show "p_id p = u_id ou"
    using assms ne' by (auto simp: candidate_def Let_def split: sum.splits)
  have sc: "shared_classes p = intersection_list (course_codes (get_user_schedules ss uid))
          (course_codes (get_user_schedules ss oid))"
    using assms ne' by (auto simp: candidate_def Let_def split: sum.splits)
  show "set (shared_classes p) = shared_courses ss uid oid" by (simp add: sc shared_list_set)
  show "distinct (shared_classes p)" by (simp add: sc shared_list_distinct)
  show "score p = 20 * int (card (shared_courses ss uid oid))
           + (if u_major user = u_major ou then 15 else 0)
           + (if get_user_status st oid \<in> {STUDYING, HELP, FREE} then 10 else 0)"
    using assms ne' by (auto simp: candidate_def Let_def shared_list_length split: sum.splits)
  show "reason p = ''Shares '' @ str_nat (card (shared_courses ss uid oid))
           @ (if card (shared_courses ss uid oid) > 1 then '' classes'' else '' class'')
           @ '' with you''
           @ (if u_major user = u_major ou then ''; Same major ('' @ u_major user @ '')'' else [])
           @ (if get_user_status st oid = HELP then ''; Available to help''
              else if get_user_status st oid = STUDYING then ''; Currently studying'' else [])"
    using assms ne' by (auto simp: candidate_def Let_def shared_list_length split: sum.splits)
qed

lemma recommendation_loop_char:
  "recommendation_loop ss st now uid user (course_codes (get_user_schedules ss uid)) us acc = Inr recs
   \<Longrightarrow> \<exists>ps. recs = acc @ ps \<and> list_all2 (built_from ss st now uid user) ps (filter (eligible ss uid) us)"
proof (induction us arbitrary: acc)
  case Nil
  then show ?case by simp
next
  case (Cons entry rest)
  obtain oid ou where e: "entry = (oid, ou)" by (cases entry)
  show ?case
  proof (cases "oid = uid")
    case True
    with Cons.prems e have "recommendation_loop ss st now uid user
        (course_codes (get_user_schedules ss uid)) rest acc = Inr recs" by simp
    from Cons.IH[OF this] show ?thesis using True e by (simp add: eligible_def)
  next
    case False
    show ?thesis
    proof (cases "candidate ss st now user (course_codes (get_user_schedules ss uid)) oid ou")
      case (Inl err)
      with Cons.prems e False show ?thesis by simp
    next
      case (Inr r)
      show ?thesis
      proof (cases r)
        case None
        with Inr have "shared_courses ss uid oid = {}" by (simp add: candidate_None_iff)
        moreover from Cons.prems e False Inr None have "recommendation_loop ss st now uid user
            (course_codes (get_user_schedules ss uid)) rest acc = Inr recs" by simp
        ultimately show ?thesis using Cons.IH e by (simp add: eligible_def)
      next
        case (Some p)
        with Inr have ne: "shared_courses ss uid oid \<noteq> {}" using candidate_Some(1) by blast
        from Cons.prems e False Inr Some have "recommendation_loop ss st now uid user
            (course_codes (get_user_schedules ss uid)) rest (acc @ [p]) = Inr recs" by simp
        from Cons.IH[OF this] obtain ps where ps: "recs = (acc @ [p]) @ ps"
           "list_all2 (built_from ss st now uid user) ps (filter (eligible ss uid) rest)" by blast
        have "built_from ss st now uid user p entry" using Inr Some e by (simp add: built_from_def)
        then have "list_all2 (built_from ss st now uid user) (p # ps) (filter (eligible ss uid) (entry # rest))"
          using ps(2) ne False e by (simp add: eligible_def)
        moreover have "recs = acc @ (p # ps)" using ps(1) by simp
        ultimately show ?thesis by blast
      qed
    qed
  qed
qed

lemma get_recommendations_char:
  assumes "get_recommendations ss st now uid = Inr recs" and "get_user ss uid = Some user"
  shows "\<exists>ps. recs = take 5 (sort_key (\<lambda>x. - score x) ps)
            \<and> list_all2 (built_from ss st now uid user) ps (filter (eligible ss uid) (users ss))"
proof -
  from assms obtain rs where rs: "recommendation_loop ss st now uid user
       (course_codes (get_user_schedules ss uid)) (users ss) [] = Inr rs"
       and recs: "recs = take 5 (sort_key (\<lambda>x. - score x) rs)"
    by (auto simp: get_recommendations_def Let_def split: sum.splits)
  from recommendation_loop_char[OF rs] recs show ?thesis by auto
qed

lemma built_from_member:
  assumes "list_all2 (built_from ss st now uid user) ps (filter (eligible ss uid) us)" and "p \<in> set ps"
  shows "\<exists>entry \<in> set us. eligible ss uid entry \<and> built_from ss st now uid user p entry"
proof -
  from assms obtain i where i: "i < length ps" "ps ! i = p" by (auto simp: in_set_conv_nth)
  let ?e = "filter (eligible ss uid) us ! i"
  have len: "length ps = length (filter (eligible ss uid) us)" using assms(1) by (rule list_all2_lengthD)
  have "built_from ss st now uid user p ?e" using list_all2_nthD[OF assms(1) i(1)] i(2) by simp
  moreover have "?e \<in> set (filter (eligible ss uid) us)"
    by (rule nth_mem) (use i(1) len in simp)
  ultimately show ?thesis by auto
qed

section \<open>Properties of the recommendations\<close>

lemma top5_sorted: "sorted_wrt (\<lambda>a b. score a \<ge> score b) (take 5 (sort_key (\<lambda>x. - score x) ps))"
proof -
  have "sorted (map (\<lambda>x. - score x) (sort_key (\<lambda>x. - score x) ps))" by (rule sorted_sort_key)
  then have "sorted_wrt (\<lambda>a b. - score a \<le> - score b) (sort_key (\<lambda>x. - score x) ps)"
    by (simp add: sorted_map)
  then have "sorted_wrt (\<lambda>a b. score a \<ge> score b) (sort_key (\<lambda>x. - score x) ps)"
    by (rule sorted_wrt_mono_rel[rotated]) simp
  then show ?thesis by (rule sorted_wrt_take)
qed

lemma top5_ties:
  "prefix (filter (\<lambda>p. score p = k) (take 5 (sort_key (\<lambda>x. - score x) ps)))
          (filter (\<lambda>p. score p = k) ps)"
proof -
  have "filter (\<lambda>p. - score p = - k) (sort_key (\<lambda>x. - score x) ps) = filter (\<lambda>p. - score p = - k) ps"
    by (rule sort_key_stable)
  then have "filter (\<lambda>p. score p = k) (sort_key (\<lambda>x. - score x) ps) = filter (\<lambda>p. score p = k) ps"
    by simp
  moreover have "prefix (filter (\<lambda>p. score p = k) (take 5 (sort_key (\<lambda>x. - score x) ps)))
          (filter (\<lambda>p. score p = k) (sort_key (\<lambda>x. - score x) ps))"
    by (rule filter_mono_prefix) (rule take_is_prefix)
  ultimately show ?thesis by simp
qed

lemma top5_subset: "set (take 5 (sort_key (\<lambda>x. - score x) ps)) \<subseteq> set ps"
  using set_take_subset[of 5 "sort_key (\<lambda>x. - score x) ps"] by simp

lemma get_recommendations_no_user:
  "get_user ss uid = None \<Longrightarrow> get_recommendations ss st now uid = Inr []"
  by (simp add: get_recommendations_def)




lemma demo_recommendations_carol:
  "get_recommendations demo_store no_statuses monday_0930 ''carol'' =
     Inr [\<lparr>p_id = ''alice'', p_username = ''Alice Chen'', p_major = ''CS'', p_avatar = None,
           score = 30, shared_classes = [''MATH 21-127''],
           current_class = Some ''CS 15-122'', next_class = None,
           reason = ''Shares 1 class with you''\<rparr>,
          \<lparr>p_id = ''bob'', p_username = ''Bob Smith'', p_major = ''CS'', p_avatar = None,
           score = 30, shared_classes = [''MATH 21-127''],
           current_class = Some ''CS 15-122'', next_class = None,
           reason = ''Shares 1 class with you''\<rparr>]"
  by code_simp

lemma demo_keys_are_ids: "keys_are_ids demo_store"
  by (simp add: keys_are_ids_def demo_store_def alice_def bob_def carol_def)






text \<open>
  Claim C2. The recommendation list is empty when the requesting user id is not in the
  user store, and a list is returned whenever the start times in the store are zero-padded
  clock strings. Otherwise, whenever the list is returned, it has at most 5 records, it is
  sorted by score in descending order, every record comes from an entry of the user store
  other than the requester whose shared-course set with the requester is not empty, and
  records of equal score keep the order in which the user store is iterated: for each
  score, the records of the list with that score are an initial part of the candidates
  with that score in population order. With every user filed under the user's own id, no
  record carries the requester's id.
\<close>

theorem recommendation_list:
  "(get_user ss uid = None \<longrightarrow> get_recommendations ss st now uid = Inr [])
   \<and> (start_times_ok ss \<longrightarrow> (\<exists>recs. get_recommendations ss st now uid = Inr recs))
   \<and> (\<forall>recs. get_recommendations ss st now uid = Inr recs \<longrightarrow>
         length recs \<le> 5
       \<and> sorted_wrt (\<lambda>a b. score a \<ge> score b) recs
       \<and> (\<forall>p \<in> set recs. \<exists>entry \<in> set (users ss).
              fst entry \<noteq> uid \<and> p_id p = u_id (snd entry)
            \<and> shared_courses ss uid (fst entry) \<noteq> {}
            \<and> set (shared_classes p) = shared_courses ss uid (fst entry))
       \<and> (keys_are_ids ss \<longrightarrow> (\<forall>p \<in> set recs. p_id p \<noteq> uid))
       \<and> (get_user ss uid \<noteq> None \<longrightarrow>
           (\<exists>ps. list_all2 (\<lambda>p entry. p_id p = u_id (snd entry)) ps
                   (filter (eligible ss uid) (users ss))
              \<and> set recs \<subseteq> set ps
              \<and> length recs = min 5 (length ps)
              \<and> (\<forall>k. prefix (filter (\<lambda>p. score p = k) recs) (filter (\<lambda>p. score p = k) ps)))))"
proof -
  have main: "length recs \<le> 5
       \<and> sorted_wrt (\<lambda>a b. score a \<ge> score b) recs
       \<and> (\<forall>p \<in> set recs. \<exists>entry \<in> set (users ss).
              fst entry \<noteq> uid \<and> p_id p = u_id (snd entry)
            \<and> shared_courses ss uid (fst entry) \<noteq> {}
            \<and> set (shared_classes p) = shared_courses ss uid (fst entry))
       \<and> (keys_are_ids ss \<longrightarrow> (\<forall>p \<in> set recs. p_id p \<noteq> uid))
       \<and> (get_user ss uid \<noteq> None \<longrightarrow>
           (\<exists>ps. list_all2 (\<lambda>p entry. p_id p = u_id (snd entry)) ps
                   (filter (eligible ss uid) (users ss))
              \<and> set recs \<subseteq> set ps
              \<and> length recs = min 5 (length ps)
              \<and> (\<forall>k. prefix (filter (\<lambda>p. score p = k) recs) (filter (\<lambda>p. score p = k) ps))))"
    if r: "get_recommendations ss st now uid = Inr recs" for recs
  proof (cases "get_user ss uid")
    case None
    with r have "recs = []" by (simp add: get_recommendations_def)
    then show ?thesis using None by simp
  next
    case (Some user)
    from get_recommendations_char[OF r Some] obtain ps where
      ps: "recs = take 5 (sort_key (\<lambda>x. - score x) ps)"
          "list_all2 (built_from ss st now uid user) ps (filter (eligible ss uid) (users ss))"
      by blast
    have len: "length recs \<le> 5" by (simp add: ps(1))
    have len2: "length recs = min 5 (length ps)" by (simp add: ps(1) min.commute)
    have srt: "sorted_wrt (\<lambda>a b. score a \<ge> score b) recs" unfolding ps(1) by (rule top5_sorted)
    have sub: "set recs \<subseteq> set ps" unfolding ps(1) by (rule top5_subset)
    have ties: "\<forall>k. prefix (filter (\<lambda>p. score p = k) recs) (filter (\<lambda>p. score p = k) ps)"
      unfolding ps(1) using top5_ties by blast
    have origin: "\<exists>entry \<in> set (users ss).
              fst entry \<noteq> uid \<and> p_id p = u_id (snd entry)
            \<and> shared_courses ss uid (fst entry) \<noteq> {}
            \<and> set (shared_classes p) = shared_courses ss uid (fst entry)"
      if "p \<in> set recs" for p
    proof -
      from that sub have "p \<in> set ps" by blast
      from built_from_member[OF ps(2) this] obtain entry where
        e: "entry \<in> set (users ss)" "eligible ss uid entry" "built_from ss st now uid user p entry"
        by blast
      have c: "candidate ss st now user (course_codes (get_user_schedules ss uid))
                 (fst entry) (snd entry) = Inr (Some p)"
        using e(3) by (simp add: built_from_def)
      show ?thesis
        using e(1) e(2) candidate_Some(2)[OF c] candidate_Some(3)[OF c]
        by (auto simp: eligible_def)
    qed
    have noself: "p_id p \<noteq> uid" if k: "keys_are_ids ss" and "p \<in> set recs" for p
    proof -
      from origin[OF that(2)] obtain entry where
        e: "entry \<in> set (users ss)" "fst entry \<noteq> uid" "p_id p = u_id (snd entry)" by blast
      from k e(1) have "u_id (snd entry) = fst entry"
        by (simp add: keys_are_ids_def list_all_iff)
      with e show ?thesis by simp
    qed
    have ids: "list_all2 (\<lambda>p entry. p_id p = u_id (snd entry)) ps
                   (filter (eligible ss uid) (users ss))"
      using ps(2)
    proof (rule list_all2_mono)
      fix p entry
      assume "built_from ss st now uid user p entry"
      then have "candidate ss st now user (course_codes (get_user_schedules ss uid))
                 (fst entry) (snd entry) = Inr (Some p)" by (simp add: built_from_def)
      then show "p_id p = u_id (snd entry)" by (rule candidate_Some(2))
    qed
    have ex: "\<exists>ps. list_all2 (\<lambda>p entry. p_id p = u_id (snd entry)) ps
                   (filter (eligible ss uid) (users ss))
              \<and> set recs \<subseteq> set ps
              \<and> length recs = min 5 (length ps)
              \<and> (\<forall>k. prefix (filter (\<lambda>p. score p = k) recs) (filter (\<lambda>p. score p = k) ps))"
      using ids sub len2 ties by (intro exI[of _ ps] conjI)
    show ?thesis
    proof (intro conjI)
      show "length recs \<le> 5" by (rule len)
      show "sorted_wrt (\<lambda>a b. score a \<ge> score b) recs" by (rule srt)
      show "\<forall>p \<in> set recs. \<exists>entry \<in> set (users ss).
              fst entry \<noteq> uid \<and> p_id p = u_id (snd entry)
            \<and> shared_courses ss uid (fst entry) \<noteq> {}
            \<and> set (shared_classes p) = shared_courses ss uid (fst entry)"
        using origin by (intro ballI)
      show "keys_are_ids ss \<longrightarrow> (\<forall>p \<in> set recs. p_id p \<noteq> uid)"
        using noself by (intro impI ballI)
      show "get_user ss uid \<noteq> None \<longrightarrow>
           (\<exists>ps. list_all2 (\<lambda>p entry. p_id p = u_id (snd entry)) ps
                   (filter (eligible ss uid) (users ss))
              \<and> set recs \<subseteq> set ps
              \<and> length recs = min 5 (length ps)
              \<and> (\<forall>k. prefix (filter (\<lambda>p. score p = k) recs) (filter (\<lambda>p. score p = k) ps)))"
        using ex by (intro impI)
    qed
  qed
  show ?thesis
  proof (intro conjI)
    show "get_user ss uid = None \<longrightarrow> get_recommendations ss st now uid = Inr []"
      using get_recommendations_no_user[of ss uid st now] by (intro impI)
    show "start_times_ok ss \<longrightarrow> (\<exists>recs. get_recommendations ss st now uid = Inr recs)"
      using get_recommendations_returns[of ss st now uid] by (intro impI)
    show "\<forall>recs. get_recommendations ss st now uid = Inr recs \<longrightarrow>
         length recs \<le> 5
       \<and> sorted_wrt (\<lambda>a b. score a \<ge> score b) recs
       \<and> (\<forall>p \<in> set recs. \<exists>entry \<in> set (users ss).
              fst entry \<noteq> uid \<and> p_id p = u_id (snd entry)
            \<and> shared_courses ss uid (fst entry) \<noteq> {}
            \<and> set (shared_classes p) = shared_courses ss uid (fst entry))
       \<and> (keys_are_ids ss \<longrightarrow> (\<forall>p \<in> set recs. p_id p \<noteq> uid))
       \<and> (get_user ss uid \<noteq> None \<longrightarrow>
           (\<exists>ps. list_all2 (\<lambda>p entry. p_id p = u_id (snd entry)) ps
                   (filter (eligible ss uid) (users ss))
              \<and> set recs \<subseteq> set ps
              \<and> length recs = min 5 (length ps)
              \<and> (\<forall>k. prefix (filter (\<lambda>p. score p = k) recs) (filter (\<lambda>p. score p = k) ps))))"
      by (intro allI impI) (rule main)
  qed
qed

lemma demo_no_zoe: "get_user demo_store ''zoe'' = None"
  by (simp add: get_user_def demo_store_def)

theorem recommendation_list_witness:
  "get_recommendations demo_store no_statuses monday_0930 ''zoe'' = Inr []
   \<and> start_times_ok demo_store
   \<and> (\<exists>recs. get_recommendations demo_store no_statuses monday_0930 ''carol'' = Inr recs)
   \<and> keys_are_ids demo_store
   \<and> sorted_wrt (\<lambda>a b. score a \<ge> score b)
        [\<lparr>p_id = ''alice'', p_username = ''Alice Chen'', p_major = ''CS'', p_avatar = None,
           score = 30, shared_classes = [''MATH 21-127''],
           current_class = Some ''CS 15-122'', next_class = None,
           reason = ''Shares 1 class with you''\<rparr>,
          \<lparr>p_id = ''bob'', p_username = ''Bob Smith'', p_major = ''CS'', p_avatar = None,
           score = 30, shared_classes = [''MATH 21-127''],
           current_class = Some ''CS 15-122'', next_class = None,
           reason = ''Shares 1 class with you''\<rparr>]
   \<and> (\<exists>entry \<in> set (users demo_store). fst entry \<noteq> ''carol'' \<and> ''bob'' = u_id (snd entry)
            \<and> shared_courses demo_store ''carol'' (fst entry) \<noteq> {}
            \<and> {''MATH 21-127''} = shared_courses demo_store ''carol'' (fst entry))
   \<and> (\<exists>ps. list_all2 (\<lambda>p entry. p_id p = u_id (snd entry)) ps
                   (filter (eligible demo_store ''carol'') (users demo_store))
          \<and> prefix (filter (\<lambda>p. score p = 30)
               [\<lparr>p_id = ''alice'', p_username = ''Alice Chen'', p_major = ''CS'', p_avatar = None,
                  score = 30, shared_classes = [''MATH 21-127''],
                  current_class = Some ''CS 15-122'', next_class = None,
                  reason = ''Shares 1 class with you''\<rparr>,
                \<lparr>p_id = ''bob'', p_username = ''Bob Smith'', p_major = ''CS'', p_avatar = None,
                  score = 30, shared_classes = [''MATH 21-127''],
                  current_class = Some ''CS 15-122'', next_class = None,
                  reason = ''Shares 1 class with you''\<rparr>])
               (filter (\<lambda>p. score p = 30) ps))"
proof -
  let ?alice = "\<lparr>p_id = ''alice'', p_username = ''Alice Chen'', p_major = ''CS'', p_avatar = None,
           score = 30, shared_classes = [''MATH 21-127''],
           current_class = Some ''CS 15-122'', next_class = None,
           reason = ''Shares 1 class with you''\<rparr>"
  let ?bob = "\<lparr>p_id = ''bob'', p_username = ''Bob Smith'', p_major = ''CS'', p_avatar = None,
           score = 30, shared_classes = [''MATH 21-127''],
           current_class = Some ''CS 15-122'', next_class = None,
           reason = ''Shares 1 class with you''\<rparr>"
  note carol = recommendation_list[of demo_store "''carol''" no_statuses monday_0930,
                 THEN conjunct2, THEN conjunct2, rule_format, OF demo_recommendations_carol]
  have z: "get_recommendations demo_store no_statuses monday_0930 ''zoe'' = Inr []"
    using recommendation_list[of demo_store "''zoe''" no_statuses monday_0930] demo_no_zoe
    by (elim conjE) simp
  have s: "sorted_wrt (\<lambda>a b. score a \<ge> score b) [?alice, ?bob]"
    using carol[THEN conjunct2, THEN conjunct1] .
  have "\<forall>p \<in> set [?alice, ?bob]. \<exists>entry \<in> set (users demo_store).
              fst entry \<noteq> ''carol'' \<and> p_id p = u_id (snd entry)
            \<and> shared_courses demo_store ''carol'' (fst entry) \<noteq> {}
            \<and> set (shared_classes p) = shared_courses demo_store ''carol'' (fst entry)"
    using carol[THEN conjunct2, THEN conjunct2, THEN conjunct1] .
  then have o: "\<exists>entry \<in> set (users demo_store). fst entry \<noteq> ''carol'' \<and> ''bob'' = u_id (snd entry)
            \<and> shared_courses demo_store ''carol'' (fst entry) \<noteq> {}
            \<and> {''MATH 21-127''} = shared_courses demo_store ''carol'' (fst entry)"
    by simp
  have u: "get_user demo_store ''carol'' \<noteq> None"
    by (simp add: get_user_def demo_store_def)
  have "\<exists>ps. list_all2 (\<lambda>p entry. p_id p = u_id (snd entry)) ps
                   (filter (eligible demo_store ''carol'') (users demo_store))
              \<and> set [?alice, ?bob] \<subseteq> set ps
              \<and> length [?alice, ?bob] = min 5 (length ps)
              \<and> (\<forall>k. prefix (filter (\<lambda>p. score p = k) [?alice, ?bob]) (filter (\<lambda>p. score p = k) ps))"
    using carol[THEN conjunct2, THEN conjunct2, THEN conjunct2, THEN conjunct2] u by (rule mp)
  then have t: "\<exists>ps. list_all2 (\<lambda>p entry. p_id p = u_id (snd entry)) ps
                   (filter (eligible demo_store ''carol'') (users demo_store))
          \<and> prefix (filter (\<lambda>p. score p = 30) [?alice, ?bob]) (filter (\<lambda>p. score p = 30) ps)"
    by blast
  have ok: "start_times_ok demo_store" by code_simp
  have ret: "\<exists>recs. get_recommendations demo_store no_statuses monday_0930 ''carol'' = Inr recs"
    using recommendation_list[of demo_store "''carol''" no_statuses monday_0930,
            THEN conjunct2, THEN conjunct1] ok by (rule mp)
  show ?thesis using z ok ret demo_keys_are_ids s o t by (intro conjI)
qed

section \<open>The status board\<close>

lemma board_entry_fields:
  assumes "board_entry ss st now uid user = Inr b"
  shows "b_id b = u_id user"
    and "b_current_class b =
           find_current_class (dt_weekday now) (strftime_HM now) (get_user_schedules ss uid)"
  using assms by (auto simp: board_entry_def Let_def split: sum.splits)

lemma status_loop_char:
  "status_loop ss st now us ic fr = Inr (ic', fr') \<Longrightarrow>
     \<exists>bs. list_all2 (\<lambda>b entry. board_entry ss st now (fst entry) (snd entry) = Inr b) bs us
        \<and> ic' = ic @ filter (\<lambda>b. truthy (b_current_class b)) bs
        \<and> fr' = fr @ filter (\<lambda>b. \<not> truthy (b_current_class b)) bs"
proof (induction us arbitrary: ic fr)
  case Nil
  then show ?case by simp
next
  case (Cons entry rest)
  obtain uid user where e: "entry = (uid, user)" by (cases entry)
  show ?case
  proof (cases "board_entry ss st now uid user")
    case (Inl err)
    with Cons.prems e show ?thesis by simp
  next
    case (Inr b)
    show ?thesis
    proof (cases "truthy (b_current_class b)")
      case True
      with Cons.prems e Inr have "status_loop ss st now rest (ic @ [b]) fr = Inr (ic', fr')" by simp
      from Cons.IH[OF this] obtain bs where
        bs: "list_all2 (\<lambda>b entry. board_entry ss st now (fst entry) (snd entry) = Inr b) bs rest"
            "ic' = (ic @ [b]) @ filter (\<lambda>b. truthy (b_current_class b)) bs"
            "fr' = fr @ filter (\<lambda>b. \<not> truthy (b_current_class b)) bs" by blast
      have "list_all2 (\<lambda>b entry. board_entry ss st now (fst entry) (snd entry) = Inr b)
              (b # bs) (entry # rest)" using bs(1) Inr e by simp
      moreover have "ic' = ic @ filter (\<lambda>b. truthy (b_current_class b)) (b # bs)"
        using bs(2) True by simp
      moreover have "fr' = fr @ filter (\<lambda>b. \<not> truthy (b_current_class b)) (b # bs)"
        using bs(3) True by simp
      ultimately show ?thesis by blast
    next
      case False
      with Cons.prems e Inr have "status_loop ss st now rest ic (fr @ [b]) = Inr (ic', fr')" by simp
      from Cons.IH[OF this] obtain bs where
        bs: "list_all2 (\<lambda>b entry. board_entry ss st now (fst entry) (snd entry) = Inr b) bs rest"
            "ic' = ic @ filter (\<lambda>b. truthy (b_current_class b)) bs"
            "fr' = (fr @ [b]) @ filter (\<lambda>b. \<not> truthy (b_current_class b)) bs" by blast
      have "list_all2 (\<lambda>b entry. board_entry ss st now (fst entry) (snd entry) = Inr b)
              (b # bs) (entry # rest)" using bs(1) Inr e by simp
      moreover have "ic' = ic @ filter (\<lambda>b. truthy (b_current_class b)) (b # bs)"
        using bs(2) False by simp
      moreover have "fr' = fr @ filter (\<lambda>b. \<not> truthy (b_current_class b)) (b # bs)"
        using bs(3) False by simp
      ultimately show ?thesis by blast
    qed
  qed
qed

lemma map_filter_related:
  assumes "list_all2 R bs us" and "\<And>b e. R b e \<Longrightarrow> f b = g e \<and> (P b \<longleftrightarrow> Q e)"
  shows "map f (filter P bs) = map g (filter Q us)"
  using assms(1)
proof (induction rule: list_all2_induct)
  case Nil
  then show ?case by simp
next
  case (Cons b bs e us)
  then show ?case using assms(2)[OF Cons.hyps(1)] by simp
qed

text \<open>
  What holds of the status board whenever it is returned: the two lists split the user
  store, in its iteration order, by whether the class found for the user is a non-empty
  label; so every entry of the store is in exactly one list.
\<close>

lemma status_board_partition:
  assumes "get_current_status ss st now = Inr resp"
  shows "map b_id (in_class resp) =
           map (\<lambda>entry. u_id (snd entry))
             (filter (\<lambda>entry. truthy (find_current_class (dt_weekday now) (strftime_HM now)
                                        (get_user_schedules ss (fst entry)))) (users ss))"
    and "map b_id (free resp) =
           map (\<lambda>entry. u_id (snd entry))
             (filter (\<lambda>entry. \<not> truthy (find_current_class (dt_weekday now) (strftime_HM now)
                                        (get_user_schedules ss (fst entry)))) (users ss))"
    and "length (in_class resp) + length (free resp) = length (users ss)"
proof -
  from assms obtain ic fr where l: "status_loop ss st now (users ss) [] [] = Inr (ic, fr)"
    and r: "resp = \<lparr>now_iso = dt_iso now, in_class = ic, free = fr\<rparr>"
    by (auto simp: get_current_status_def split: sum.splits)
  from status_loop_char[OF l] obtain bs where
    bs: "list_all2 (\<lambda>b entry. board_entry ss st now (fst entry) (snd entry) = Inr b) bs (users ss)"
        "ic = filter (\<lambda>b. truthy (b_current_class b)) bs"
        "fr = filter (\<lambda>b. \<not> truthy (b_current_class b)) bs" by auto
  show "map b_id (in_class resp) =
           map (\<lambda>entry. u_id (snd entry))
             (filter (\<lambda>entry. truthy (find_current_class (dt_weekday now) (strftime_HM now)
                                        (get_user_schedules ss (fst entry)))) (users ss))"
    unfolding r using bs(2)
    by (simp add: map_filter_related[OF bs(1)] board_entry_fields)
  show "map b_id (free resp) =
           map (\<lambda>entry. u_id (snd entry))
             (filter (\<lambda>entry. \<not> truthy (find_current_class (dt_weekday now) (strftime_HM now)
                                        (get_user_schedules ss (fst entry)))) (users ss))"
    unfolding r using bs(3)
    by (simp add: map_filter_related[OF bs(1)] board_entry_fields)
  have "length bs = length (users ss)" using bs(1) by (rule list_all2_lengthD)
  then show "length (in_class resp) + length (free resp) = length (users ss)"
    unfolding r using bs(2) bs(3) sum_length_filter_compl[of "\<lambda>b. truthy (b_current_class b)" bs]
    by simp
qed

text \<open>
  With non-empty course codes the class found is a non-empty label exactly when some entry
  of the day contains the reference time.
\<close>

lemma truthy_find_current_class:
  assumes "list_all (\<lambda>s. course_code s \<noteq> []) scheds"
  shows "truthy (find_current_class (dt_weekday now) (strftime_HM now) scheds)
           \<longleftrightarrow> list_ex (entry_contains now) scheds"
  using assms by (induction scheds) (auto simp: truthy_def entry_contains_def)

text \<open>
  Claim C3 does not hold of the program. The test \<open>if current_class:\<close> takes an empty
  course code for no class: a user whose entry of the day contains the reference time and
  has an empty course code is put in the free list, with the current class \<open>""\<close>.
\<close>

theorem status_board_blank_course_code:
  "get_current_status blank_code_store no_statuses monday_0930 =
     Inr \<lparr>now_iso = ''2025-01-13T09:30:00'', in_class = [],
          free = [\<lparr>b_id = ''dana'', b_username = ''Dana Lee'', b_major = ''CS'', b_avatar = None,
                   b_manual_status = ''free'', b_current_class = Some [],
                   b_next_class = None\<rparr>]\<rparr>
   \<and> in_class_now blank_code_store monday_0930 ''dana''
   \<and> get_current_class_for_user
        \<lparr>e_schedules = [''dana'' \<mapsto> \<lparr>sd_userId = Some ''dana'', sd_schedule = Some
            (map class_info_of (get_user_schedules blank_code_store ''dana''))\<rparr>],
         e_statuses = Map.empty\<rparr> ''dana'' monday_0930 = ''In ''"
proof (intro conjI)
  show "get_current_status blank_code_store no_statuses monday_0930 =
     Inr \<lparr>now_iso = ''2025-01-13T09:30:00'', in_class = [],
          free = [\<lparr>b_id = ''dana'', b_username = ''Dana Lee'', b_major = ''CS'', b_avatar = None,
                   b_manual_status = ''free'', b_current_class = Some [],
                   b_next_class = None\<rparr>]\<rparr>"
    by code_simp
  show "in_class_now blank_code_store monday_0930 ''dana''"
    by code_simp
  show "get_current_class_for_user
        \<lparr>e_schedules = [''dana'' \<mapsto> \<lparr>sd_userId = Some ''dana'', sd_schedule = Some
            (map class_info_of (get_user_schedules blank_code_store ''dana''))\<rparr>],
         e_statuses = Map.empty\<rparr> ''dana'' monday_0930 = ''In ''"
    by code_simp
qed

end
